theory Spec2Isabelle
  imports Main "HOL-Library.Word"
begin

unbundle bit_operations_syntax

section \<open>Buffers, numbers and strings\<close>

text \<open>
  A Node \<open>Buffer\<close> is a list of bytes. The decoder writes to the input only through the two
  struct setters \<open>header.color_number\<close> and \<open>frame.chunk_count\<close>, which touch bytes
  of the header and of the frame header being read; every later read is at a higher offset, and
  every view taken earlier ends at or before that frame header. The buffer is therefore modelled
  as an immutable value, and the two setters as updates of the decoded fields.

  JavaScript numbers are \<open>nat\<close> where the source reads an unsigned field and \<open>int\<close>
  where it reads a signed one. A JavaScript string is its list of UTF-16 code units.
\<close>

type_synonym byte = "8 word"
type_synonym Buffer = "byte list"
type_synonym jsstring = "16 word list"

datatype error = RangeError | TypeError | Error string | ZlibError

text \<open>Sequencing of computations that may throw: the first exception ends the computation.\<close>

definition bnd :: "error + 'a \<Rightarrow> ('a \<Rightarrow> error + 'b) \<Rightarrow> error + 'b" where
  "bnd m f = (case m of Inl e \<Rightarrow> Inl e | Inr v \<Rightarrow> f v)"

text \<open>\<open>b[i]\<close>: \<open>undefined\<close> (here \<open>None\<close>) outside the buffer.\<close>

definition at :: "Buffer \<Rightarrow> nat \<Rightarrow> nat option" where
  "at b i = (if i < length b then Some (unat (b ! i)) else None)"

text \<open>The fixed-width readers of \<open>Buffer\<close> throw a \<open>RangeError\<close> when the field does not
  lie inside the buffer.\<close>

definition readUint8 :: "Buffer \<Rightarrow> nat \<Rightarrow> error + nat" where
  "readUint8 b off = (if off + 1 \<le> length b then Inr (unat (b ! off)) else Inl RangeError)"

definition readUint16LE :: "Buffer \<Rightarrow> nat \<Rightarrow> error + nat" where
  "readUint16LE b off =
     (if off + 2 \<le> length b then Inr (unat (b ! off) + 256 * unat (b ! (off + 1)))
      else Inl RangeError)"

definition readInt16LE :: "Buffer \<Rightarrow> nat \<Rightarrow> error + int" where
  "readInt16LE b off =
     (case readUint16LE b off of
        Inl e \<Rightarrow> Inl e
      | Inr v \<Rightarrow> Inr (if v < 32768 then int v else int v - 65536))"

definition readUint32LE :: "Buffer \<Rightarrow> nat \<Rightarrow> error + nat" where
  "readUint32LE b off =
     (if off + 4 \<le> length b
      then Inr (unat (b ! off) + 256 * unat (b ! (off + 1)) + 65536 * unat (b ! (off + 2))
                + 16777216 * unat (b ! (off + 3)))
      else Inl RangeError)"

text \<open>\<open>b.subarray(start, end)\<close>: a negative index counts from the end of the buffer, both
  indices are clamped to the buffer, and an end before the start gives the empty buffer.\<close>

definition rel_index :: "nat \<Rightarrow> int \<Rightarrow> nat" where
  "rel_index len i = (if i < 0 then nat (max (int len + i) 0) else min (nat i) len)"

definition subarray :: "Buffer \<Rightarrow> int \<Rightarrow> int \<Rightarrow> Buffer" where
  "subarray b s e =
     (let s' = rel_index (length b) s; e' = rel_index (length b) e
      in take (e' - s') (drop s' b))"

text \<open>\<open>b.subarray(start)\<close>: the end defaults to the length of the buffer.\<close>

definition subarray_from :: "Buffer \<Rightarrow> int \<Rightarrow> Buffer" where
  "subarray_from b s = subarray b s (int (length b))"

section \<open>External collaborators\<close>

text \<open>
  The libraries the source calls are parameters of the model: \<open>Buffer.toString\<close> (UTF-8
  decoding), \<open>zlib.inflateSync\<close> (\<open>None\<close> when it throws), \<open>crc32\<close> and
  \<open>bin-pack\<close>. The packer receives the rectangles to pack, each with the identity of the
  cel object it belongs to (its position in \<open>cells\<close>), and returns for each placed item
  that identity and the origin assigned to it.
\<close>

record externals =
  toString :: "Buffer \<Rightarrow> jsstring"
  inflateSync :: "Buffer \<Rightarrow> Buffer option"
  crc :: "Buffer \<Rightarrow> nat"
  pack :: "(nat \<times> nat \<times> nat) list \<Rightarrow> (nat \<times> int \<times> int) list"

section \<open>Chunk decoders\<close>

text \<open>
  Record fields keep the names of the source; where two object types share a field name, or the
  name is taken in Isabelle, the field carries the prefix of its type (\<open>cel_x\<close> for the
  \<open>x\<close> of a cel, \<open>ud_text\<close> for the \<open>text\<close> of a user-data record, \<open>h_size\<close> for the
  \<open>size\<close> of the header).
\<close>

subsection \<open>Colour profile\<close>

record AseColorProfileChunk =
  color_type :: nat
  specialFixedGamma :: bool
  gamma :: nat

definition parseColorProfile :: "Buffer \<Rightarrow> error + AseColorProfileChunk" where
  "parseColorProfile buffer =
     bnd (readUint16LE buffer 0) (\<lambda>cp.
     bnd (readUint16LE buffer 0) (\<lambda>flags.
       Inr \<lparr> color_type = cp, specialFixedGamma = (flags AND 1 = 1), gamma = 0 \<rparr>))"

subsection \<open>Old palette\<close>

text \<open>A table entry holds three reads \<open>buffer[ptr + k]\<close>, each \<open>undefined\<close> outside the
  buffer. \<open>skip\<close> is \<open>undefined\<close> when the packet header lies outside the buffer; then
  \<open>skip-- > 0\<close> compares \<open>NaN\<close> and is false.\<close>

type_synonym palette_entry = "nat option \<times> nat option \<times> nat option"

fun palette_entries ::
  "Buffer \<Rightarrow> nat \<Rightarrow> int option \<Rightarrow> nat \<Rightarrow> palette_entry list \<Rightarrow> nat \<times> palette_entry list" where
  "palette_entries buffer 0 skip ptr table = (ptr, table)"
| "palette_entries buffer (Suc j) skip ptr table =
     (if (case skip of Some s \<Rightarrow> 0 < s | None \<Rightarrow> False)
      then palette_entries buffer j (map_option (\<lambda>s. s - 1) skip) (ptr + 3) table
      else palette_entries buffer j (map_option (\<lambda>s. s - 1) skip) (ptr + 3)
             (table @ [(at buffer ptr, at buffer (ptr + 1), at buffer (ptr + 2))]))"

fun palette_packets :: "Buffer \<Rightarrow> nat \<Rightarrow> nat \<Rightarrow> palette_entry list \<Rightarrow> palette_entry list" where
  "palette_packets buffer 0 ptr table = table"
| "palette_packets buffer (Suc i) ptr table =
     (let skip = at buffer ptr;
          entries_count = (case at buffer (ptr + 1) of
                             None \<Rightarrow> 256
                           | Some c \<Rightarrow> if c = 0 then 256 else c);
          r = palette_entries buffer entries_count (map_option int skip) ptr table
      in palette_packets buffer i (fst r + 2) (snd r))"

definition parseOldPalette :: "Buffer \<Rightarrow> error + palette_entry list" where
  "parseOldPalette buffer =
     bnd (readUint16LE buffer 0) (\<lambda>packet_number.
       Inr (palette_packets buffer packet_number 2 []))"

subsection \<open>Strings\<close>

definition readPstring :: "externals \<Rightarrow> Buffer \<Rightarrow> nat \<Rightarrow> error + jsstring" where
  "readPstring ext b off =
     bnd (readInt16LE b off) (\<lambda>n.
       Inr (toString ext (subarray b (int off + 2) (int off + 2 + n))))"

subsection \<open>Layer\<close>

record AseLayerData =
  visible :: bool
  editable :: bool
  lock :: bool
  background :: bool
  prefer_linked :: bool
  collapsed :: bool
  reference :: bool
  layer_type :: nat
  child_level :: nat
  default_width :: nat
  default_height :: nat
  blend_mode :: nat
  layer_opacity :: nat
  layer_name :: jsstring

definition parseLayer :: "externals \<Rightarrow> Buffer \<Rightarrow> error + AseLayerData" where
  "parseLayer ext buffer =
     bnd (readUint16LE buffer 0) (\<lambda>flags.
     bnd (readPstring ext buffer 16) (\<lambda>name.
       Inr \<lparr> visible = (0 \<noteq> flags AND 1),
             editable = (0 \<noteq> flags AND 2),
             lock = (0 \<noteq> flags AND 4),
             background = (0 \<noteq> flags AND 8),
             prefer_linked = (0 \<noteq> flags AND 16),
             collapsed = (0 \<noteq> flags AND 32),
             reference = (0 \<noteq> flags AND 64),
             layer_type = 0, child_level = 0,
             default_width = 0,
             default_height = 0,
             blend_mode = 0,
             layer_opacity = 255,
             layer_name = name \<rparr>))"

subsection \<open>Tags\<close>

record AseTag =
  tag_from :: int
  tag_to :: int
  tag_loop_type :: "nat option"
  tag_repeat :: int
  tag_color :: "nat option list"
  tag_name :: jsstring

fun parseTags :: "externals \<Rightarrow> Buffer \<Rightarrow> nat \<Rightarrow> nat \<Rightarrow> AseTag list \<Rightarrow> error + AseTag list" where
  "parseTags ext b 0 ptr tags = Inr tags"
| "parseTags ext b (Suc i) ptr tags =
     bnd (readInt16LE b (ptr + 0)) (\<lambda>frm.
     bnd (readInt16LE b (ptr + 2)) (\<lambda>to.
     bnd (readInt16LE b (ptr + 5)) (\<lambda>repeat.
     bnd (readPstring ext b (ptr + 7 + 6 + 3 + 1)) (\<lambda>name.
       parseTags ext b i (ptr + 7 + 6 + 3 + 1 + (length name + 2))
         (tags @ [\<lparr> tag_from = frm, tag_to = to, tag_loop_type = at b (ptr + 4),
                    tag_repeat = repeat,
                    tag_color = [at b (ptr + 7 + 6 + 0), at b (ptr + 7 + 6 + 1),
                                 at b (ptr + 7 + 6 + 2)],
                    tag_name = name \<rparr>])))))"

definition parseTagsChunk :: "externals \<Rightarrow> Buffer \<Rightarrow> error + AseTag list" where
  "parseTagsChunk ext b =
     bnd (readInt16LE b 0) (\<lambda>tag_count. parseTags ext b (nat tag_count) 10 [])"

subsection \<open>User data\<close>

record AseUserData =
  ud_text :: "jsstring option"
  ud_color :: "nat list option"

definition parseUserData :: "externals \<Rightarrow> Buffer \<Rightarrow> error + AseUserData" where
  "parseUserData ext b =
     bnd (readUint32LE b 0) (\<lambda>flags.
     bnd (if flags AND 1 \<noteq> 0
          then bnd (readPstring ext b 4) (\<lambda>t. Inr (Some t, 4 + (2 + length t)))
          else Inr (None, 4)) (\<lambda>tp.
       Inr \<lparr> ud_text = fst tp,
             ud_color = (if flags AND 2 \<noteq> 0
                      then Some (map unat (subarray b (int (snd tp)) (int (snd tp) + 4)))
                      else None) \<rparr>))"

subsection \<open>Cels, chunks and frames\<close>

record AseCelChunk =
  layeridx :: nat
  cel_x :: int
  cel_y :: int
  cel_opacity :: "nat option"
  zindex :: int
  celtype :: int
  width :: nat
  height :: nat
  pixels :: Buffer

text \<open>
  A decoded chunk is one of the five content variants the decoder builds, with the user-data
  records attached to it. The source leaves \<open>userdata\<close> undefined until the first record is
  pushed, and an array it creates receives a record at once, so an array that exists is never
  empty: the empty list stands for \<open>undefined\<close>.
\<close>

datatype AseChunkData =
    OldPalette "palette_entry list"
  | Layer AseLayerData
  | Cel AseCelChunk
  | ColorProfile AseColorProfileChunk
  | Tags "AseTag list"

record AseChunk =
  data :: AseChunkData
  userdata :: "AseUserData list"

definition chunk_type :: "AseChunk \<Rightarrow> nat" where
  "chunk_type c =
     (case data c of
        OldPalette _ \<Rightarrow> 0x0004
      | Layer _ \<Rightarrow> 0x2004
      | Cel _ \<Rightarrow> 0x2005
      | ColorProfile _ \<Rightarrow> 0x2007
      | Tags _ \<Rightarrow> 0x2018)"

record AseFrame =
  duration :: nat
  chunks :: "AseChunk list"

text \<open>The cel of a chunk, for the chunks of type \<open>0x2005\<close>.\<close>

definition as_cel :: "AseChunk \<Rightarrow> AseCelChunk option" where
  "as_cel c = (case data c of Cel k \<Rightarrow> Some k | _ \<Rightarrow> None)"

definition parseCel :: "externals \<Rightarrow> Buffer \<Rightarrow> AseFrame list \<Rightarrow> error + AseCelChunk" where
  "parseCel ext b previousFrames =
     bnd (readUint16LE b 0) (\<lambda>lidx.
     bnd (readInt16LE b 2) (\<lambda>x.
     bnd (readInt16LE b 4) (\<lambda>y.
     bnd (readInt16LE b 7) (\<lambda>ctype.
     bnd (readInt16LE b 9) (\<lambda>z.
       let opacity = at b 6; rest = subarray_from b 16 in
       if ctype = 0 then
         bnd (readUint16LE rest 0) (\<lambda>w.
         bnd (readUint16LE rest 2) (\<lambda>h.
           Inr \<lparr> layeridx = lidx, cel_x = x, cel_y = y, cel_opacity = opacity, zindex = z,
                 celtype = ctype, width = w, height = h, pixels = subarray_from rest 4 \<rparr>))
       else if ctype = 1 then
         bnd (readUint16LE rest 0) (\<lambda>fidx.
           if fidx < length previousFrames then
             (case find (\<lambda>e. case as_cel e of Some k \<Rightarrow> layeridx k = lidx | None \<Rightarrow> False)
                     (chunks (previousFrames ! fidx)) of
                None \<Rightarrow> Inl TypeError
              | Some e \<Rightarrow>
                  (case as_cel e of
                     None \<Rightarrow> Inl TypeError
                   | Some originCell \<Rightarrow>
                       Inr \<lparr> layeridx = lidx, cel_x = cel_x originCell, cel_y = cel_y originCell,
                             cel_opacity = opacity, zindex = z, celtype = 1,
                             width = width originCell, height = height originCell,
                             pixels = pixels originCell \<rparr>))
           else Inl TypeError)
       else if ctype = 2 then
         bnd (readUint16LE rest 0) (\<lambda>w.
         bnd (readUint16LE rest 2) (\<lambda>h.
           case inflateSync ext (subarray_from rest 4) of
             None \<Rightarrow> Inl ZlibError
           | Some px \<Rightarrow>
               Inr \<lparr> layeridx = lidx, cel_x = x, cel_y = y, cel_opacity = opacity, zindex = z,
                     celtype = ctype, width = w, height = h, pixels = px \<rparr>))
       else Inl (Error ''Unsupported cel type''))))))"

section \<open>The file decoder\<close>

text \<open>
  \<open>headerParser\<close> and \<open>frameParser\<close> are \<open>typed-struct\<close> classes over the declared
  fields: 124 and 14 bytes. Their constructor rejects a buffer shorter than the struct with a
  \<open>TypeError\<close>; the fields are then read at their fixed offsets.
\<close>

record ASEHeader =
  h_size :: nat
  h_magic :: nat
  frame_count :: nat
  h_width :: nat
  h_height :: nat
  depth :: nat
  h_flags :: nat
  speed_deprecated :: nat
  zero_0 :: nat
  zero_1 :: nat
  transparent_palette_index :: nat
  color_number :: nat
  pixel_width :: nat
  pixel_height :: nat
  grid_x :: int
  grid_w :: int
  grid_width :: nat
  grid_height :: nat

definition headerParser :: "Buffer \<Rightarrow> error + ASEHeader" where
  "headerParser raw =
     (if length raw < 124 then Inl TypeError else
      bnd (readUint32LE raw 0) (\<lambda>v0.
      bnd (readUint16LE raw 4) (\<lambda>v4.
      bnd (readUint16LE raw 6) (\<lambda>v6.
      bnd (readUint16LE raw 8) (\<lambda>v8.
      bnd (readUint16LE raw 10) (\<lambda>v10.
      bnd (readUint16LE raw 12) (\<lambda>v12.
      bnd (readUint32LE raw 14) (\<lambda>v14.
      bnd (readUint16LE raw 18) (\<lambda>v18.
      bnd (readUint16LE raw 20) (\<lambda>v20.
      bnd (readUint16LE raw 22) (\<lambda>v22.
      bnd (readUint8 raw 24) (\<lambda>v24.
      bnd (readUint16LE raw 28) (\<lambda>v28.
      bnd (readUint8 raw 30) (\<lambda>v30.
      bnd (readUint8 raw 31) (\<lambda>v31.
      bnd (readInt16LE raw 32) (\<lambda>v32.
      bnd (readInt16LE raw 34) (\<lambda>v34.
      bnd (readUint16LE raw 36) (\<lambda>v36.
      bnd (readUint16LE raw 38) (\<lambda>v38.
        Inr \<lparr> h_size = v0, h_magic = v4, frame_count = v6, h_width = v8, h_height = v10,
              depth = v12, h_flags = v14, speed_deprecated = v18, zero_0 = v20, zero_1 = v22,
              transparent_palette_index = v24, color_number = v28, pixel_width = v30,
              pixel_height = v31, grid_x = v32, grid_w = v34, grid_width = v36,
              grid_height = v38 \<rparr>)))))))))))))))))))"

record ASEFrame =
  f_size :: nat
  f_magic :: nat
  chunk_count_old :: nat
  frame_duration :: nat
  chunk_count :: nat

definition frameParser :: "Buffer \<Rightarrow> error + ASEFrame" where
  "frameParser raw =
     (if length raw < 14 then Inl TypeError else
      bnd (readUint32LE raw 0) (\<lambda>v0.
      bnd (readUint16LE raw 4) (\<lambda>v4.
      bnd (readUint16LE raw 6) (\<lambda>v6.
      bnd (readUint16LE raw 8) (\<lambda>v8.
      bnd (readUint16LE raw 12) (\<lambda>v12.
        Inr \<lparr> f_size = v0, f_magic = v4, chunk_count_old = v6, frame_duration = v8,
              chunk_count = v12 \<rparr>))))))"

text \<open>
  The state of the chunk loop of one frame: the cursor, the chunks pushed so far, \<open>pchunk\<close>
  (a reference to one of the objects in \<open>chunks\<close>, here its position) and the set of
  unknown chunk types seen, in insertion order.
\<close>

record chunk_state =
  st_ptr :: nat
  st_chunks :: "AseChunk list"
  st_pchunk :: "nat option"
  st_seentypes :: "nat list"

definition set_add :: "'a list \<Rightarrow> 'a \<Rightarrow> 'a list" where
  "set_add s v = (if v \<in> set s then s else s @ [v])"

text \<open>\<open>chunks.push(chunk); if (upd) pchunk = chunk; ptr += chunksize\<close>.\<close>

definition push_chunk :: "chunk_state \<Rightarrow> nat \<Rightarrow> AseChunkData \<Rightarrow> chunk_state" where
  "push_chunk st chunksize d =
     st \<lparr> st_chunks := st_chunks st @ [\<lparr> data = d, userdata = [] \<rparr>],
          st_pchunk := Some (length (st_chunks st)),
          st_ptr := st_ptr st + chunksize \<rparr>"

text \<open>\<open>pchunk.userdata ||= []; pchunk.userdata.push(ud)\<close> on the object \<open>pchunk\<close> refers to.\<close>

definition push_userdata :: "AseChunk list \<Rightarrow> nat \<Rightarrow> AseUserData \<Rightarrow> AseChunk list" where
  "push_userdata cs p ud = cs[p := (cs ! p) \<lparr> userdata := userdata (cs ! p) @ [ud] \<rparr>]"

text \<open>One iteration of the chunk loop.\<close>

definition parseChunk ::
  "externals \<Rightarrow> Buffer \<Rightarrow> AseFrame list \<Rightarrow> chunk_state \<Rightarrow> error + chunk_state" where
  "parseChunk ext buffer frames st =
     bnd (readUint32LE buffer (st_ptr st)) (\<lambda>chunksize.
     bnd (readUint16LE buffer (st_ptr st + 4)) (\<lambda>ctype.
       let data = subarray buffer (int (st_ptr st) + 6) (int (st_ptr st) + int chunksize) in
       if ctype = 0x0004 then
         bnd (parseOldPalette data) (\<lambda>c. Inr (push_chunk st chunksize (OldPalette c)))
       else if ctype = 0x2004 then
         bnd (parseLayer ext data) (\<lambda>c. Inr (push_chunk st chunksize (Layer c)))
       else if ctype = 0x2005 then
         bnd (parseCel ext data frames) (\<lambda>c. Inr (push_chunk st chunksize (Cel c)))
       else if ctype = 0x2007 then
         bnd (parseColorProfile data) (\<lambda>c. Inr (push_chunk st chunksize (ColorProfile c)))
       else if ctype = 0x2018 then
         bnd (parseTagsChunk ext data) (\<lambda>c. Inr (push_chunk st chunksize (Tags c)))
       else if ctype = 0x2020 then
         (case st_pchunk st of
            Some p \<Rightarrow>
              bnd (parseUserData ext data) (\<lambda>ud.
                Inr (st \<lparr> st_chunks := push_userdata (st_chunks st) p ud,
                          st_ptr := st_ptr st + chunksize \<rparr>))
          | None \<Rightarrow> Inr (st \<lparr> st_ptr := st_ptr st + chunksize \<rparr>))
       else
         Inr (st \<lparr> st_ptr := st_ptr st + chunksize,
                   st_seentypes := set_add (st_seentypes st) ctype \<rparr>)))"

fun parseChunks ::
  "externals \<Rightarrow> Buffer \<Rightarrow> AseFrame list \<Rightarrow> nat \<Rightarrow> chunk_state \<Rightarrow> error + chunk_state" where
  "parseChunks ext buffer frames 0 st = Inr st"
| "parseChunks ext buffer frames (Suc j) st =
     bnd (parseChunk ext buffer frames st) (parseChunks ext buffer frames j)"

text \<open>The frame loop: \<open>n\<close> frames are still to be read at \<open>ptr\<close>.\<close>

fun parseFrames ::
  "externals \<Rightarrow> Buffer \<Rightarrow> nat \<Rightarrow> nat \<Rightarrow> AseFrame list \<Rightarrow> nat list \<Rightarrow>
     error + AseFrame list \<times> nat list" where
  "parseFrames ext buffer 0 ptr frames seen = Inr (frames, seen)"
| "parseFrames ext buffer (Suc n) ptr frames seen =
     bnd (frameParser (subarray buffer (int ptr) (int ptr + 16))) (\<lambda>frame.
     bnd (parseChunks ext buffer frames
            (if chunk_count frame = 0 then chunk_count_old frame else chunk_count frame)
            \<lparr> st_ptr = ptr + 16, st_chunks = [], st_pchunk = None, st_seentypes = seen \<rparr>)
       (\<lambda>st.
         parseFrames ext buffer n (st_ptr st)
           (frames @ [\<lparr> duration = frame_duration frame, chunks = st_chunks st \<rparr>])
           (st_seentypes st)))"

text \<open>The decoded document; \<open>types\<close> holds the unknown chunk types (the source returns them
  printed in hexadecimal).\<close>

record parsed =
  header :: ASEHeader
  frames :: "AseFrame list"
  types :: "nat list"

definition parseFile :: "externals \<Rightarrow> Buffer \<Rightarrow> error + parsed" where
  "parseFile ext buffer =
     bnd (headerParser (subarray buffer 0 128)) (\<lambda>h.
       let hd' = (if color_number h = 0 then h \<lparr> color_number := 256 \<rparr> else h) in
       bnd (parseFrames ext buffer (frame_count hd') 128 [] []) (\<lambda>r.
         Inr \<lparr> header = hd', frames = fst r, types = snd r \<rparr>))"

section \<open>The user-data rule, on the chunk stream\<close>

text \<open>
  The chunks of a frame as the file lays them out: \<open>j\<close> chunks from \<open>ptr\<close>, each with its
  type tag and payload, each starting where the declared size of the one before ends.
\<close>

fun chunk_stream :: "Buffer \<Rightarrow> nat \<Rightarrow> nat \<Rightarrow> (nat \<times> Buffer) list option" where
  "chunk_stream buffer 0 ptr = Some []"
| "chunk_stream buffer (Suc j) ptr =
     (case readUint32LE buffer ptr of
        Inl _ \<Rightarrow> None
      | Inr chunksize \<Rightarrow>
          (case readUint16LE buffer (ptr + 4) of
             Inl _ \<Rightarrow> None
           | Inr ctype \<Rightarrow>
               map_option ((#) (ctype, subarray buffer (int ptr + 6) (int ptr + int chunksize)))
                 (chunk_stream buffer j (ptr + chunksize))))"

text \<open>The decoder of a content chunk, by type tag; \<open>None\<close> for any other tag.\<close>

definition decode_content ::
  "externals \<Rightarrow> AseFrame list \<Rightarrow> nat \<Rightarrow> Buffer \<Rightarrow> (error + AseChunkData) option" where
  "decode_content ext fs ctype d =
     (if ctype = 0x0004 then Some (bnd (parseOldPalette d) (\<lambda>c. Inr (OldPalette c)))
      else if ctype = 0x2004 then Some (bnd (parseLayer ext d) (\<lambda>c. Inr (Layer c)))
      else if ctype = 0x2005 then Some (bnd (parseCel ext d fs) (\<lambda>c. Inr (Cel c)))
      else if ctype = 0x2007 then Some (bnd (parseColorProfile d) (\<lambda>c. Inr (ColorProfile c)))
      else if ctype = 0x2018 then Some (bnd (parseTagsChunk ext d) (\<lambda>c. Inr (Tags c)))
      else None)"

text \<open>
  The rule as the specification words it: a content chunk becomes a new entry of the chunk
  list; a user-data chunk becomes no entry, its record is appended to the user data of the most
  recent entry, and it is dropped when the frame has no entry yet; any other chunk is skipped.
\<close>

fun attach_userdata ::
  "externals \<Rightarrow> AseFrame list \<Rightarrow> (nat \<times> Buffer) list \<Rightarrow> AseChunk list \<Rightarrow> error + AseChunk list" where
  "attach_userdata ext fs [] cs = Inr cs"
| "attach_userdata ext fs (r # rs) cs =
     (if fst r = 0x2020 then
        (if cs = [] then attach_userdata ext fs rs cs
         else bnd (parseUserData ext (snd r)) (\<lambda>ud.
                attach_userdata ext fs rs
                  (butlast cs @ [(last cs) \<lparr> userdata := userdata (last cs) @ [ud] \<rparr>])))
      else (case decode_content ext fs (fst r) (snd r) of
              None \<Rightarrow> attach_userdata ext fs rs cs
            | Some m \<Rightarrow> bnd m (\<lambda>c. attach_userdata ext fs rs (cs @ [\<lparr> data = c, userdata = [] \<rparr>]))))"

text \<open>\<open>pchunk\<close> refers to the chunk pushed last, and is undefined while there is none.\<close>

definition pchunk_last :: "chunk_state \<Rightarrow> bool" where
  "pchunk_last st \<longleftrightarrow>
     st_pchunk st = (if st_chunks st = [] then None else Some (length (st_chunks st) - 1))"

section \<open>The asset reducer\<close>

subsection \<open>String operations\<close>

text \<open>A string literal of the source, as code units.\<close>

definition js :: "string \<Rightarrow> jsstring" where
  "js s = map (\<lambda>c. word_of_nat (of_char c)) s"

text \<open>\<open>s.split(sep)\<close> for a separator of one code unit.\<close>

fun split :: "jsstring \<Rightarrow> 16 word \<Rightarrow> jsstring list" where
  "split [] sep = [[]]"
| "split (c # cs) sep =
     (if c = sep then [] # split cs sep
      else (case split cs sep of t # ts \<Rightarrow> (c # t) # ts | [] \<Rightarrow> [[c]]))"

text \<open>\<open>s.trim()\<close> removes the white space and line terminators of ECMAScript at both ends.\<close>

definition is_space :: "16 word \<Rightarrow> bool" where
  "is_space c \<longleftrightarrow>
     c \<in> set [0x09, 0x0A, 0x0B, 0x0C, 0x0D, 0x20, 0xA0, 0x1680, 0x2028, 0x2029, 0x202F, 0x205F,
              0x3000, 0xFEFF] \<or> (0x2000 \<le> c \<and> c \<le> 0x200A)"

definition trim :: "jsstring \<Rightarrow> jsstring" where
  "trim s = rev (dropWhile is_space (rev (dropWhile is_space s)))"

text \<open>\<open>new Set(xs)\<close>, as the list of its elements in insertion order.\<close>

definition new_Set :: "'a list \<Rightarrow> 'a list" where
  "new_Set xs = foldl set_add [] xs"

subsection \<open>Layers and cels\<close>

definition layers :: "parsed \<Rightarrow> AseChunk list" where
  "layers p = concat (map (\<lambda>e. filter (\<lambda>c. chunk_type c = 0x2004) (chunks e)) (frames p))"

definition usedlayers :: "parsed \<Rightarrow> AseChunk list" where
  "usedlayers p = filter (\<lambda>l. userdata l \<noteq> []) (layers p)"

text \<open>\<open>usedlayers.map(e => layers.indexOf(e))\<close>: \<open>indexOf\<close> compares object identities and
  every chunk object occurs once in \<open>layers\<close>, so it gives the position of the layer.\<close>

definition layerid :: "parsed \<Rightarrow> nat list" where
  "layerid p = filter (\<lambda>i. userdata (layers p ! i) \<noteq> []) [0..<length (layers p)]"

definition empty_cel :: "nat \<Rightarrow> AseCelChunk" where
  "empty_cel lid =
     \<lparr> layeridx = lid, cel_x = 0, cel_y = 0, cel_opacity = Some 255, zindex = 0, celtype = 0,
       width = 0, height = 0, pixels = [] \<rparr>"

definition frame_cells :: "nat \<Rightarrow> nat list \<Rightarrow> AseFrame \<Rightarrow> AseCelChunk list" where
  "frame_cells nlayers lids e =
     (let ret = List.map_filter as_cel (chunks e);
          remaining_ids = filter (\<lambda>r. r \<in> set lids)
                            (filter (\<lambda>i. i \<notin> set (map layeridx ret)) [0..<nlayers])
      in ret @ map empty_cel remaining_ids)"

definition cells :: "parsed \<Rightarrow> AseCelChunk list" where
  "cells p = concat (map (frame_cells (length (layers p)) (layerid p)) (frames p))"

subsection \<open>Deduplication and packing\<close>

text \<open>Cel objects are identified by their position in \<open>cells\<close>: \<open>added\<close>, the values of
  \<open>crc2uniqcell\<close> and the keys of \<open>celtoitem\<close> are such positions.\<close>

record dedup_state =
  addedc :: "nat list"
  added :: "nat list"
  crc2uniqcell :: "nat \<rightharpoonup> nat"

definition dedup_step :: "nat list \<Rightarrow> dedup_state \<Rightarrow> nat \<Rightarrow> dedup_state" where
  "dedup_step crcs st i =
     (if crcs ! i \<in> set (addedc st) then st
      else \<lparr> addedc = addedc st @ [crcs ! i], added = added st @ [i],
             crc2uniqcell = (crc2uniqcell st)(crcs ! i \<mapsto> i) \<rparr>)"

definition dedup :: "nat list \<Rightarrow> dedup_state" where
  "dedup crcs =
     foldl (dedup_step crcs) \<lparr> addedc = [], added = [], crc2uniqcell = Map.empty \<rparr>
       [0..<length crcs]"

text \<open>\<open>[...added].filter(c => c.width && layers[c.layeridx].userdata)\<close>: reading
  \<open>userdata\<close> of a layer that does not exist throws.\<close>

fun uniquecells :: "AseChunk list \<Rightarrow> AseCelChunk list \<Rightarrow> nat list \<Rightarrow> error + nat list" where
  "uniquecells ls cs [] = Inr []"
| "uniquecells ls cs (c # rest) =
     (if width (cs ! c) = 0 then uniquecells ls cs rest
      else if layeridx (cs ! c) < length ls then
        (if userdata (ls ! layeridx (cs ! c)) \<noteq> []
         then bnd (uniquecells ls cs rest) (\<lambda>r. Inr (c # r))
         else uniquecells ls cs rest)
      else Inl TypeError)"

definition celtoitem :: "(nat \<times> int \<times> int) list \<Rightarrow> (nat \<rightharpoonup> int \<times> int)" where
  "celtoitem items = foldl (\<lambda>m i. m(fst i \<mapsto> snd i)) Map.empty items"

subsection \<open>Flags\<close>

definition animflags :: "AseChunk list \<Rightarrow> jsstring list" where
  "animflags used =
     new_Set (map the (filter (\<lambda>e. e \<noteq> None \<and> e \<noteq> Some [])
       (concat (map (\<lambda>e. concat (map (\<lambda>u. case ud_text u of
                                              None \<Rightarrow> [None]
                                            | Some t \<Rightarrow> map Some (split t 0x26))
                                    (userdata e))) used))))"

text \<open>\<open>Object.fromEntries([...animflags].map((e, i) => [e, i]))\<close>: the own properties of the
  object, in insertion order.\<close>

definition flags_of :: "jsstring list \<Rightarrow> (jsstring \<times> nat) list" where
  "flags_of af = zip af [0..<length af]"

text \<open>
  \<open>u in flags\<close> also holds for the properties the object inherits from
  \<open>Object.prototype\<close>; the value read there is a function (or the prototype itself),
  which the shift converts to 0.
\<close>

definition object_prototype_keys :: "jsstring list" where
  "object_prototype_keys =
     map js [''constructor'', ''__defineGetter__'', ''__defineSetter__'', ''hasOwnProperty'',
             ''__lookupGetter__'', ''__lookupSetter__'', ''isPrototypeOf'',
             ''propertyIsEnumerable'', ''toString'', ''valueOf'', ''__proto__'',
             ''toLocaleString'']"

text \<open>\<open>ret |= 1 << flags[u]\<close> on 32-bit integers: the shift count is taken modulo 32.\<close>

fun computeFlags_loop :: "(jsstring \<times> nat) list \<Rightarrow> jsstring list \<Rightarrow> 32 word \<Rightarrow> 32 word" where
  "computeFlags_loop fl [] ret = ret"
| "computeFlags_loop fl (u # us) ret =
     (case map_of fl u of
        Some i \<Rightarrow> computeFlags_loop fl us (ret OR push_bit (i mod 32) 1)
      | None \<Rightarrow>
          if u \<in> set object_prototype_keys
          then computeFlags_loop fl us (ret OR push_bit 0 1)
          else computeFlags_loop fl us ret)"

text \<open>\<open>computeFlags(n)\<close>; \<open>n.split\<close> throws when the text is undefined.\<close>

definition computeFlags :: "(jsstring \<times> nat) list \<Rightarrow> jsstring option \<Rightarrow> error + int" where
  "computeFlags fl n =
     (case n of
        None \<Rightarrow> Inl TypeError
      | Some t \<Rightarrow> Inr (sint (computeFlags_loop fl (map trim (split t 0x26)) 0)))"

subsection \<open>Animation records\<close>

text \<open>\<open>arr[ptr++] = v\<close> on an \<open>Int16Array\<close>: the value is reduced to 16 bits, and a write
  past the end of the array is ignored.\<close>

type_synonym arr_state = "16 word list \<times> nat"

definition store :: "arr_state \<Rightarrow> int \<Rightarrow> arr_state" where
  "store ap v = ((fst ap)[snd ap := word_of_int v], snd ap + 1)"

record gen_env =
  e_cells :: "AseCelChunk list"
  e_crcs :: "nat list"
  e_crc2uniqcell :: "nat \<rightharpoonup> nat"
  e_celtoitem :: "nat \<rightharpoonup> int \<times> int"
  e_flags :: "(jsstring \<times> nat) list"

text \<open>The body of the loop over \<open>cells\<close> for a cel of the layer being written.\<close>

definition emit_cel :: "gen_env \<Rightarrow> nat \<Rightarrow> arr_state \<Rightarrow> error + arr_state" where
  "emit_cel env c ap =
     (let cel = e_cells env ! c in
      case e_crc2uniqcell env (e_crcs env ! c) of
        None \<Rightarrow> Inl (Error ''Wtf'')
      | Some uniqcel \<Rightarrow>
          if width cel = 0 then Inr (foldl store ap [0, 0, 0, 0, 0, 0])
          else (case e_celtoitem env uniqcel of
                  None \<Rightarrow> Inl (Error ''Wtf2'')
                | Some zone \<Rightarrow>
                    Inr (foldl store ap [cel_x cel, cel_y cel, int (width cel),
                                         int (height cel), fst zone, snd zone])))"

text \<open>The loop over \<open>cells\<close>; \<open>lid\<close> is \<open>layerid[0]\<close>, undefined when \<open>layerid\<close> is
  empty.\<close>

fun emit_cells :: "gen_env \<Rightarrow> nat option \<Rightarrow> nat list \<Rightarrow> arr_state \<Rightarrow> error + arr_state" where
  "emit_cells env lid [] ap = Inr ap"
| "emit_cells env lid (c # cs) ap =
     (if Some (layeridx (e_cells env ! c)) \<noteq> lid then emit_cells env lid cs ap
      else bnd (emit_cel env c ap) (emit_cells env lid cs))"

text \<open>The loop over \<open>usedlayers\<close>, with \<open>layerid\<close> shifted at the end of every
  iteration.\<close>

fun emit_layers ::
  "gen_env \<Rightarrow> bool \<Rightarrow> AseChunk list \<Rightarrow> nat list \<Rightarrow> arr_state \<times> int list \<Rightarrow>
     error + arr_state \<times> int list" where
  "emit_layers env animdata [] lids st = Inr st"
| "emit_layers env animdata (l # ls) lids st =
     bnd (if animdata
          then emit_cells env (case lids of [] \<Rightarrow> None | i # _ \<Rightarrow> Some i)
                 [0..<length (e_cells env)] (fst st)
          else Inr (fst st)) (\<lambda>ap.
     bnd (case userdata l of
            [] \<Rightarrow> Inl TypeError
          | u # _ \<Rightarrow> computeFlags (e_flags env) (ud_text u)) (\<lambda>m.
       emit_layers env animdata ls (tl lids) (ap, snd st @ [m])))"

subsection \<open>The generated module\<close>

text \<open>
  The values the generated code exposes (the source prints them as JSON into the module text)
  and the animation array. \<open>anims\<close> is an object built by \<open>Object.fromEntries\<close>: a later
  entry with the same name replaces an earlier one. The parameters \<open>modname\<close>, \<open>js\<close> and
  \<open>sheet\<close> of the source only select the text of the module and whether the atlas is
  rasterised; \<open>celtoitem\<close> is filled in the same way in both cases.
\<close>

record generated =
  extent :: "nat \<times> nat"
  g_frame_count :: nat
  anims :: "jsstring \<rightharpoonup> int \<times> int \<times> nat option \<times> int"
  g_flags :: "(jsstring \<times> nat) list"
  layers_props :: "int list"
  frame_durations :: "nat list"
  g_animdata :: "16 word list option"

definition retagged :: "AseTag list \<Rightarrow> (jsstring \<rightharpoonup> int \<times> int \<times> nat option \<times> int)" where
  "retagged ts =
     foldl (\<lambda>m e. m(tag_name e \<mapsto> (tag_from e, tag_to e, tag_loop_type e, tag_repeat e)))
       Map.empty ts"

definition gen_env_of :: "externals \<Rightarrow> parsed \<Rightarrow> nat list \<Rightarrow> gen_env" where
  "gen_env_of ext p uc =
     (let crcs = map (\<lambda>e. crc ext (pixels e)) (cells p) in
      \<lparr> e_cells = cells p,
        e_crcs = crcs,
        e_crc2uniqcell = crc2uniqcell (dedup crcs),
        e_celtoitem =
          celtoitem (pack ext (map (\<lambda>c. (c, width (cells p ! c), height (cells p ! c))) uc)),
        e_flags = flags_of (animflags (usedlayers p)) \<rparr>)"

text \<open>\<open>doGeneration\<close> after the call of \<open>parseFile\<close>.\<close>

definition generate :: "externals \<Rightarrow> bool \<Rightarrow> parsed \<Rightarrow> error + generated" where
  "generate ext animdata p =
     bnd (uniquecells (layers p) (cells p)
            (added (dedup (map (\<lambda>e. crc ext (pixels e)) (cells p))))) (\<lambda>uc.
     bnd (emit_layers (gen_env_of ext p uc) animdata (usedlayers p) (layerid p)
            ((replicate (6 * length (usedlayers p) * frame_count (header p)) 0, 0), []))
       (\<lambda>r.
     case find (\<lambda>e. chunk_type e = 0x2018) (concat (map chunks (frames p))) of
       None \<Rightarrow> Inl TypeError
     | Some e \<Rightarrow>
         (case data e of
            Tags ts \<Rightarrow>
              Inr \<lparr> extent = (h_width (header p), h_height (header p)),
                    g_frame_count = frame_count (header p),
                    anims = retagged ts,
                    g_flags = flags_of (animflags (usedlayers p)),
                    layers_props = snd r,
                    frame_durations = map duration (frames p),
                    g_animdata = (if animdata then Some (fst (fst r)) else None) \<rparr>
          | _ \<Rightarrow> Inl TypeError)))"

definition doGeneration :: "externals \<Rightarrow> Buffer \<Rightarrow> bool \<Rightarrow> error + generated" where
  "doGeneration ext file animdata = bnd (parseFile ext file) (generate ext animdata)"

text \<open>The Tags chunk that the specification names as the source of the tag table: the one
  decoded last.\<close>

definition tags_latest :: "parsed \<Rightarrow> AseTag list option" where
  "tags_latest p =
     (case rev (filter (\<lambda>e. chunk_type e = 0x2018) (concat (map chunks (frames p)))) of
        [] \<Rightarrow> None
      | e # _ \<Rightarrow> (case data e of Tags ts \<Rightarrow> Some ts | _ \<Rightarrow> None))"

section \<open>Example collaborators\<close>

text \<open>
  Concrete collaborators for evaluating the model on example inputs: ASCII decoding, an
  inflater for stored data, the byte sum as fingerprint, and a packer that places the
  rectangles side by side on one shelf.
\<close>

fun shelf :: "int \<Rightarrow> (nat \<times> nat \<times> nat) list \<Rightarrow> (nat \<times> int \<times> int) list" where
  "shelf x [] = []"
| "shelf x ((k, w, h) # r) = (k, x, 0) # shelf (x + int w) r"

definition ext0 :: externals where
  "ext0 = \<lparr> toString = map ucast,
            inflateSync = Some,
            crc = (\<lambda>b. sum_list (map unat b)),
            pack = shelf 0 \<rparr>"



text \<open>Four chunks: user data (no text, no colour), a colour profile, user data with a colour,
  user data with the text \<open>a\<close>.\<close>

definition userdata_chunks :: Buffer where
  "userdata_chunks =
     [10, 0, 0, 0, 32, 32, 0, 0, 0, 0] @
     [8, 0, 0, 0, 7, 32, 1, 0] @
     [14, 0, 0, 0, 32, 32, 2, 0, 0, 0, 1, 2, 3, 4] @
     [13, 0, 0, 0, 32, 32, 1, 0, 0, 0, 1, 0, 97]"

text \<open>A chunk of the unknown type \<open>0x1234\<close> with two payload bytes, then a colour profile.\<close>

definition unknown_then_profile :: Buffer where
  "unknown_then_profile = [8, 0, 0, 0, 52, 18, 9, 9] @ [8, 0, 0, 0, 7, 32, 1, 0]"

text \<open>The 128 bytes of a header that declares \<open>n\<close> frames of a 1 by 1 canvas, and the 16
  bytes of a frame header that declares \<open>n\<close> chunks and a duration of 100.\<close>

definition file_header :: "byte \<Rightarrow> Buffer" where
  "file_header n = [0, 0, 0, 0, 224, 165, n, 0, 1, 0, 1, 0, 32] @ replicate 115 0"

definition frame_header :: "byte \<Rightarrow> Buffer" where
  "frame_header n = [0, 0, 0, 0, 250, 241, n, 0, 100, 0, 0, 0, n, 0, 0, 0]"

text \<open>A file of one frame with two Tags chunks: the first holds the tag \<open>a\<close> over frames 0 to
  0, the second the tag \<open>a\<close> over frames 1 to 1.\<close>

definition two_tags_file :: Buffer where
  "two_tags_file =
     file_header 1 @ frame_header 2 @
     [36, 0, 0, 0, 24, 32, 1, 0] @ replicate 8 0 @
       [0, 0, 0, 0, 0, 0, 0] @ replicate 6 0 @ [0, 0, 0, 0, 1, 0, 97] @
     [36, 0, 0, 0, 24, 32, 1, 0] @ replicate 8 0 @
       [1, 0, 1, 0, 0, 0, 0] @ replicate 6 0 @ [0, 0, 0, 0, 1, 0, 97]"


text \<open>The frames that \<open>two_tags_file\<close> decodes to.\<close>

definition two_tags_frames :: "AseFrame list" where
  "two_tags_frames =
     [\<lparr> duration = 100,
        chunks = [\<lparr> data = Tags [\<lparr> tag_from = 0, tag_to = 0, tag_loop_type = Some 0,
                                   tag_repeat = 0, tag_color = [Some 0, Some 0, Some 0],
                                   tag_name = [97] \<rparr>],
                    userdata = [] \<rparr>,
                  \<lparr> data = Tags [\<lparr> tag_from = 1, tag_to = 1, tag_loop_type = Some 0,
                                   tag_repeat = 0, tag_color = [Some 0, Some 0, Some 0],
                                   tag_name = [97] \<rparr>],
                    userdata = [] \<rparr>] \<rparr>]"

text \<open>The six values that the loop body writes for the cel at position \<open>c\<close> of \<open>cells\<close>,
  when it does not throw.\<close>

definition record_of :: "gen_env \<Rightarrow> nat \<Rightarrow> int list option" where
  "record_of env c =
     (let cel = e_cells env ! c in
      case e_crc2uniqcell env (e_crcs env ! c) of
        None \<Rightarrow> None
      | Some uniqcel \<Rightarrow>
          if width cel = 0 then Some [0, 0, 0, 0, 0, 0]
          else (case e_celtoitem env uniqcel of
                  None \<Rightarrow> None
                | Some zone \<Rightarrow>
                    Some [cel_x cel, cel_y cel, int (width cel), int (height cel),
                          fst zone, snd zone]))"

text \<open>The values written for one layer: the records of the cels of that layer, in the order
  of \<open>cells\<close>.\<close>

definition layer_stream :: "gen_env \<Rightarrow> nat option \<Rightarrow> nat list \<Rightarrow> 16 word list" where
  "layer_stream env lid cs =
     map word_of_int (concat (map (\<lambda>c. the (record_of env c))
       (filter (\<lambda>c. Some (layeridx (e_cells env ! c)) = lid) cs)))"

text \<open>The array after the values \<open>ws\<close> have been written from position 0 into an array of
  \<open>n\<close> zeros: the values beyond the end of the array are lost.\<close>

definition arr_inv :: "nat \<Rightarrow> arr_state \<Rightarrow> 16 word list \<Rightarrow> bool" where
  "arr_inv n ap ws \<longleftrightarrow> fst ap = take n (ws @ replicate n 0) \<and> snd ap = length ws"

text \<open>The flag word of a used layer: \<open>computeFlags(l.userdata![0].text!)\<close>.\<close>

definition layer_flags :: "(jsstring \<times> nat) list \<Rightarrow> AseChunk \<Rightarrow> error + int" where
  "layer_flags fl l =
     (case userdata l of [] \<Rightarrow> Inl TypeError | u # _ \<Rightarrow> computeFlags fl (ud_text u))"

text \<open>The position of the first occurrence of a value in a list.\<close>

definition first_index :: "'a list \<Rightarrow> 'a \<Rightarrow> nat" where
  "first_index xs v = length (takeWhile (\<lambda>x. x \<noteq> v) xs)"

text \<open>The cel of a layer in a frame: the first cel chunk of the frame with that layer index,
  or the placeholder when the frame has none.\<close>

definition frame_cel :: "AseFrame \<Rightarrow> nat \<Rightarrow> AseCelChunk" where
  "frame_cel e i =
     (case find (\<lambda>k. layeridx k = i) (List.map_filter as_cel (chunks e)) of
        Some k \<Rightarrow> k
      | None \<Rightarrow> empty_cel i)"

text \<open>The fingerprint representative of a cel: the position in \<open>cells\<close> of the first cel
  with the same fingerprint.\<close>

definition representative :: "externals \<Rightarrow> parsed \<Rightarrow> AseCelChunk \<Rightarrow> nat" where
  "representative ext p cel =
     first_index (map (\<lambda>e. crc ext (pixels e)) (cells p)) (crc ext (pixels cel))"

text \<open>The atlas placement: the origin that the packer assigns to a packed cel.\<close>

definition atlas :: "externals \<Rightarrow> parsed \<Rightarrow> (nat \<rightharpoonup> int \<times> int)" where
  "atlas ext p =
     (case uniquecells (layers p) (cells p)
             (added (dedup (map (\<lambda>e. crc ext (pixels e)) (cells p)))) of
        Inl _ \<Rightarrow> Map.empty
      | Inr uc \<Rightarrow>
          celtoitem (pack ext (map (\<lambda>c. (c, width (cells p ! c), height (cells p ! c))) uc)))"

text \<open>The animation record of a cel as the specification words it: six zeros for an empty cel,
  otherwise the position and dimensions of the cel and the atlas origin of its
  representative.\<close>

definition anim_record :: "externals \<Rightarrow> parsed \<Rightarrow> AseCelChunk \<Rightarrow> int list" where
  "anim_record ext p cel =
     (if width cel = 0 then [0, 0, 0, 0, 0, 0]
      else [cel_x cel, cel_y cel, int (width cel), int (height cel),
            fst (the (atlas ext p (representative ext p cel))),
            snd (the (atlas ext p (representative ext p cel)))])"

text \<open>No frame holds two cel chunks with the same layer index.\<close>

definition one_cel_per_layer :: "parsed \<Rightarrow> bool" where
  "one_cel_per_layer p \<longleftrightarrow>
     (\<forall>e \<in> set (frames p). distinct (map layeridx (List.map_filter as_cel (chunks e))))"

text \<open>A file of one frame with two used layers, \<open>A\<close> and \<open>B\<close>, two raw cels of one pixel
  on layer 0 at (1, 1) and (2, 2), one on layer 1 at (3, 3), and an empty Tags chunk.\<close>

definition duplicate_cel_file :: Buffer where
  "duplicate_cel_file =
     file_header 1 @ frame_header 8 @
     [25, 0, 0, 0, 4, 32, 1, 0, 0, 0, 0, 0, 0, 0, 0, 0, 0, 0, 0, 0, 0, 0, 1, 0, 65] @
     [13, 0, 0, 0, 32, 32, 1, 0, 0, 0, 1, 0, 97] @
     [25, 0, 0, 0, 4, 32, 1, 0, 0, 0, 0, 0, 0, 0, 0, 0, 0, 0, 0, 0, 0, 0, 1, 0, 66] @
     [13, 0, 0, 0, 32, 32, 1, 0, 0, 0, 1, 0, 98] @
     [30, 0, 0, 0, 5, 32, 0, 0, 1, 0, 1, 0, 255, 0, 0, 0, 0, 0, 0, 0, 0, 0, 1, 0, 1, 0, 1, 0, 0, 0] @
     [30, 0, 0, 0, 5, 32, 0, 0, 2, 0, 2, 0, 255, 0, 0, 0, 0, 0, 0, 0, 0, 0, 1, 0, 1, 0, 2, 0, 0, 0] @
     [30, 0, 0, 0, 5, 32, 1, 0, 3, 0, 3, 0, 255, 0, 0, 0, 0, 0, 0, 0, 0, 0, 1, 0, 1, 0, 3, 0, 0, 0] @
     [16, 0, 0, 0, 24, 32, 0, 0, 0, 0, 0, 0, 0, 0, 0, 0]"

text \<open>A visible layer with the given name and user data, and a raw cel of one pixel.\<close>

definition example_layer :: "jsstring \<Rightarrow> AseUserData list \<Rightarrow> AseChunk" where
  "example_layer n ud =
     \<lparr> data = Layer \<lparr> visible = True, editable = False, lock = False, background = False,
                      prefer_linked = False, collapsed = False, reference = False,
                      layer_type = 0, child_level = 0, default_width = 0, default_height = 0,
                      blend_mode = 0, layer_opacity = 255, layer_name = n \<rparr>,
       userdata = ud \<rparr>"

definition example_cel :: "nat \<Rightarrow> int \<Rightarrow> int \<Rightarrow> nat \<Rightarrow> nat \<Rightarrow> Buffer \<Rightarrow> AseCelChunk" where
  "example_cel l x y w h px =
     \<lparr> layeridx = l, cel_x = x, cel_y = y, cel_opacity = Some 255, zindex = 0, celtype = 0,
       width = w, height = h, pixels = px \<rparr>"

definition duplicate_cel_frames :: "AseFrame list" where
  "duplicate_cel_frames =
     [\<lparr> duration = 100,
        chunks =
          [example_layer [65] [\<lparr> ud_text = Some [97], ud_color = None \<rparr>],
           example_layer [66] [\<lparr> ud_text = Some [98], ud_color = None \<rparr>],
           \<lparr> data = Cel (example_cel 0 1 1 1 1 [1, 0, 0, 0]), userdata = [] \<rparr>,
           \<lparr> data = Cel (example_cel 0 2 2 1 1 [2, 0, 0, 0]), userdata = [] \<rparr>,
           \<lparr> data = Cel (example_cel 1 3 3 1 1 [3, 0, 0, 0]), userdata = [] \<rparr>,
           \<lparr> data = Tags [], userdata = [] \<rparr>] \<rparr>]"

text \<open>A file of two frames. Frame 0 declares the layers \<open>A\<close> (user data \<open>a&b\<close>),
  \<open>U\<close> (no user data) and \<open>B\<close> (user data \<open> b &c\<close>, with spaces around \<open>b\<close>), a raw
  cel of one pixel on layer 0 at (1, 1), a raw cel of one pixel on layer 1 at (7, 7), a raw cel of
  width 1 and height 0 on layer 2 at (4, 5), and an empty Tags chunk. Frame 1 holds two cels, on
  layers 0 and 1, linked to frame 0.\<close>

definition two_layers_file :: Buffer where
  "two_layers_file =
     file_header 2 @ frame_header 9 @
     [25, 0, 0, 0, 4, 32, 1, 0, 0, 0, 0, 0, 0, 0, 0, 0, 0, 0, 0, 0, 0, 0, 1, 0, 65] @
     [15, 0, 0, 0, 32, 32, 1, 0, 0, 0, 3, 0, 97, 38, 98] @
     [25, 0, 0, 0, 4, 32, 1, 0, 0, 0, 0, 0, 0, 0, 0, 0, 0, 0, 0, 0, 0, 0, 1, 0, 85] @
     [25, 0, 0, 0, 4, 32, 1, 0, 0, 0, 0, 0, 0, 0, 0, 0, 0, 0, 0, 0, 0, 0, 1, 0, 66] @
     [17, 0, 0, 0, 32, 32, 1, 0, 0, 0, 5, 0, 32, 98, 32, 38, 99] @
     [30, 0, 0, 0, 5, 32, 0, 0, 1, 0, 1, 0, 255, 0, 0, 0, 0, 0, 0, 0, 0, 0, 1, 0, 1, 0, 1, 0, 0, 0] @
     [30, 0, 0, 0, 5, 32, 1, 0, 7, 0, 7, 0, 255, 0, 0, 0, 0, 0, 0, 0, 0, 0, 1, 0, 1, 0, 9, 0, 0, 0] @
     [26, 0, 0, 0, 5, 32, 2, 0, 4, 0, 5, 0, 255, 0, 0, 0, 0, 0, 0, 0, 0, 0, 1, 0, 0, 0] @
     [16, 0, 0, 0, 24, 32, 0, 0, 0, 0, 0, 0, 0, 0, 0, 0] @
     frame_header 2 @
     [24, 0, 0, 0, 5, 32, 0, 0, 5, 0, 5, 0, 255, 1, 0, 0, 0, 0, 0, 0, 0, 0, 0, 0] @
     [24, 0, 0, 0, 5, 32, 1, 0, 6, 0, 6, 0, 255, 1, 0, 0, 0, 0, 0, 0, 0, 0, 0, 0]"

definition two_layers_frames :: "AseFrame list" where
  "two_layers_frames =
     [\<lparr> duration = 100,
        chunks =
          [example_layer [65] [\<lparr> ud_text = Some [97, 38, 98], ud_color = None \<rparr>],
           example_layer [85] [],
           example_layer [66] [\<lparr> ud_text = Some [32, 98, 32, 38, 99], ud_color = None \<rparr>],
           \<lparr> data = Cel (example_cel 0 1 1 1 1 [1, 0, 0, 0]), userdata = [] \<rparr>,
           \<lparr> data = Cel (example_cel 1 7 7 1 1 [9, 0, 0, 0]), userdata = [] \<rparr>,
           \<lparr> data = Cel (example_cel 2 4 5 1 0 []), userdata = [] \<rparr>,
           \<lparr> data = Tags [], userdata = [] \<rparr>] \<rparr>,
      \<lparr> duration = 100,
        chunks =
          [\<lparr> data = Cel ((example_cel 0 1 1 1 1 [1, 0, 0, 0]) \<lparr> celtype := 1 \<rparr>),
             userdata = [] \<rparr>,
           \<lparr> data = Cel ((example_cel 1 7 7 1 1 [9, 0, 0, 0]) \<lparr> celtype := 1 \<rparr>),
             userdata = [] \<rparr>] \<rparr>]"

text \<open>The layers as the specification enumerates them: the Layer chunks of frame 0.\<close>

definition layers_frame0 :: "parsed \<Rightarrow> AseChunk list" where
  "layers_frame0 p =
     (case frames p of [] \<Rightarrow> [] | e # _ \<Rightarrow> filter (\<lambda>c. chunk_type c = 0x2004) (chunks e))"

text \<open>A file of two frames: frame 0 holds an empty Tags chunk, frame 1 a layer \<open>A\<close> with the
  user data \<open>a\<close>.\<close>

definition late_layer_file :: Buffer where
  "late_layer_file =
     file_header 2 @ frame_header 1 @
     [16, 0, 0, 0, 24, 32, 0, 0, 0, 0, 0, 0, 0, 0, 0, 0] @
     frame_header 2 @
     [25, 0, 0, 0, 4, 32, 1, 0, 0, 0, 0, 0, 0, 0, 0, 0, 0, 0, 0, 0, 0, 0, 1, 0, 65] @
     [13, 0, 0, 0, 32, 32, 1, 0, 0, 0, 1, 0, 97]"

definition late_layer_frames :: "AseFrame list" where
  "late_layer_frames =
     [\<lparr> duration = 100, chunks = [\<lparr> data = Tags [], userdata = [] \<rparr>] \<rparr>,
      \<lparr> duration = 100,
        chunks = [example_layer [65] [\<lparr> ud_text = Some [97], ud_color = None \<rparr>]] \<rparr>]"

section \<open>Properties\<close>

lemma bnd_Inr_iff: "bnd m f = Inr y \<longleftrightarrow> (\<exists>v. m = Inr v \<and> f v = Inr y)"
  by (cases m) (simp_all add: bnd_def)

lemma bnd_Inr [simp]: "bnd (Inr v) f = f v"
  by (simp add: bnd_def)

lemma bnd_Inl [simp]: "bnd (Inl e) f = Inl e"
  by (simp add: bnd_def)

lemma readUint16LE_take:
  "off + 2 \<le> n \<Longrightarrow> readUint16LE (take n b) off = readUint16LE b off"
  by (simp add: readUint16LE_def)

text \<open>
  C10. \<open>parseColorProfile\<close> takes both the profile kind and the flag word from the 16-bit
  value at offset 0 of the payload: it fails exactly when the payload has fewer than two bytes,
  otherwise \<open>color_type\<close> is that value and \<open>specialFixedGamma\<close> is its lowest bit;
  nothing after the first two bytes is read, so the result is that of the payload cut after
  offset 1, whatever stands at offset 2.
\<close>

theorem parseColorProfile_offset0:
  "(length b < 2 \<longrightarrow> parseColorProfile b = Inl RangeError) \<and>
   (2 \<le> length b \<longrightarrow>
      parseColorProfile b =
        Inr \<lparr> color_type = unat (b ! 0) + 256 * unat (b ! 1),
              specialFixedGamma = odd (unat (b ! 0) + 256 * unat (b ! 1)),
              gamma = 0 \<rparr>) \<and>
   parseColorProfile (take 2 b) = parseColorProfile b \<and>
   parseColorProfile (b[2 := v]) = parseColorProfile b \<and>
   parseColorProfile (b[3 := v]) = parseColorProfile b"
  by (simp add: parseColorProfile_def readUint16LE_def and_one_eq mod2_eq_if)

text \<open>The sRGB profile kind (1) with a zero flag word at offset 2 reports the fixed gamma flag;
  kind 0 with flag word 1 does not.\<close>

theorem parseColorProfile_offset0_witness:
  "parseColorProfile [1, 0, 0, 0] =
     Inr \<lparr> color_type = 1, specialFixedGamma = True, gamma = 0 \<rparr> \<and>
   parseColorProfile [0, 0, 1, 0] =
     Inr \<lparr> color_type = 0, specialFixedGamma = False, gamma = 0 \<rparr>"
  using parseColorProfile_offset0 [of "[1, 0, 0, 0]"] parseColorProfile_offset0 [of "[0, 0, 1, 0]"]
  by simp

subsection \<open>Evaluation of the readers on concrete buffers\<close>

lemmas readers =
  readInt16LE_def readUint16LE_def readUint32LE_def readUint8_def at_def
  subarray_from_def subarray_def rel_index_def

lemma parseChunks_numeral:
  "parseChunks ext b fs (numeral k) st =
     bnd (parseChunk ext b fs st) (parseChunks ext b fs (pred_numeral k))"
  by (simp add: numeral_eq_Suc)

lemma parseFrames_1:
  "parseFrames ext buffer (Suc 0) ptr fs seen =
     bnd (frameParser (subarray buffer (int ptr) (int ptr + 16))) (\<lambda>frame.
     bnd (parseChunks ext buffer fs
            (if chunk_count frame = 0 then chunk_count_old frame else chunk_count frame)
            \<lparr> st_ptr = ptr + 16, st_chunks = [], st_pchunk = None, st_seentypes = seen \<rparr>)
       (\<lambda>st. Inr (fs @ [\<lparr> duration = frame_duration frame, chunks = st_chunks st \<rparr>],
                  st_seentypes st)))"
  by simp

lemmas file_eval =
  file_header_def frame_header_def parseFile_def headerParser_def frameParser_def readers
  parseFrames_1 parseChunks_numeral parseChunk_def push_chunk_def push_userdata_def
  nth_append Let_def

subsection \<open>Linked cels\<close>




subsection \<open>The cursor of the chunk loop\<close>

text \<open>
  C7. An iteration of the chunk loop that does not throw leaves the cursor exactly the declared
  size of the chunk further, whatever the type tag. For a type tag the decoder does not know the
  iteration never throws: it changes nothing but the cursor (and the record of unknown types),
  and the loop goes on with the chunks that follow.
\<close>

theorem chunk_cursor_advance:
  assumes "readUint32LE buffer (st_ptr st) = Inr chunksize"
      and "readUint16LE buffer (st_ptr st + 4) = Inr ctype"
  shows "(\<forall>st'. parseChunk ext buffer fs st = Inr st' \<longrightarrow> st_ptr st' = st_ptr st + chunksize) \<and>
         (ctype \<notin> {0x0004, 0x2004, 0x2005, 0x2007, 0x2018, 0x2020} \<longrightarrow>
            parseChunk ext buffer fs st =
              Inr (st \<lparr> st_ptr := st_ptr st + chunksize,
                        st_seentypes := set_add (st_seentypes st) ctype \<rparr>) \<and>
            parseChunks ext buffer fs (Suc j) st =
              parseChunks ext buffer fs j
                (st \<lparr> st_ptr := st_ptr st + chunksize,
                      st_seentypes := set_add (st_seentypes st) ctype \<rparr>))"
  using assms
  by (auto simp: parseChunk_def bnd_Inr_iff Let_def push_chunk_def split: if_splits option.splits)


theorem chunk_cursor_advance_witness:
  "readUint32LE unknown_then_profile 0 = Inr 8 \<and>
   readUint16LE unknown_then_profile 4 = Inr 0x1234 \<and>
   parseChunk ext0 unknown_then_profile []
     \<lparr> st_ptr = 0, st_chunks = [], st_pchunk = None, st_seentypes = [] \<rparr> =
     Inr \<lparr> st_ptr = 8, st_chunks = [], st_pchunk = None, st_seentypes = [0x1234] \<rparr> \<and>
   parseChunks ext0 unknown_then_profile [] (Suc (Suc 0))
     \<lparr> st_ptr = 0, st_chunks = [], st_pchunk = None, st_seentypes = [] \<rparr> =
     Inr \<lparr> st_ptr = 16,
           st_chunks = [\<lparr> data = ColorProfile \<lparr> color_type = 1, specialFixedGamma = True,
                                                gamma = 0 \<rparr>,
                          userdata = [] \<rparr>],
           st_pchunk = Some 0, st_seentypes = [0x1234] \<rparr>"
proof -
  let ?st = "\<lparr> st_ptr = 0, st_chunks = [], st_pchunk = None, st_seentypes = [] \<rparr>"
  have h1: "readUint32LE unknown_then_profile (st_ptr ?st) = Inr 8"
    by (simp add: unknown_then_profile_def readers)
  have h2: "readUint16LE unknown_then_profile (st_ptr ?st + 4) = Inr 0x1234"
    by (simp add: unknown_then_profile_def readers)
  have rest: "parseChunks ext0 unknown_then_profile [] (Suc 0)
     \<lparr> st_ptr = 8, st_chunks = [], st_pchunk = None, st_seentypes = [0x1234] \<rparr> =
     Inr \<lparr> st_ptr = 16,
           st_chunks = [\<lparr> data = ColorProfile \<lparr> color_type = 1, specialFixedGamma = True,
                                                gamma = 0 \<rparr>,
                          userdata = [] \<rparr>],
           st_pchunk = Some 0, st_seentypes = [0x1234] \<rparr>"
    by (simp add: unknown_then_profile_def parseChunk_def parseColorProfile_def push_chunk_def
        readers)
  from chunk_cursor_advance [OF h1 h2, of ext0 "[]" "Suc 0"] h1 h2 rest show ?thesis
    by (simp add: set_add_def)
qed

subsection \<open>Attachment of user data\<close>

lemma push_userdata_last:
  "cs \<noteq> [] \<Longrightarrow>
   push_userdata cs (length cs - Suc 0) ud =
     butlast cs @ [(last cs) \<lparr> userdata := userdata (last cs) @ [ud] \<rparr>]"
  by (cases cs rule: rev_cases) (simp_all add: push_userdata_def nth_append)

lemma push_userdata_Nil: "push_userdata cs p ud = [] \<longleftrightarrow> cs = []"
  by (simp add: push_userdata_def)

lemma length_push_userdata: "length (push_userdata cs p ud) = length cs"
  by (simp add: push_userdata_def)

text \<open>One iteration of the loop does to the chunk list what the rule says for the chunk it
  reads, and keeps \<open>pchunk\<close> on the chunk pushed last.\<close>

lemma parseChunk_step:
  assumes "parseChunk ext buffer fs st = Inr st1" and "pchunk_last st"
  shows "\<exists>chunksize ctype.
           readUint32LE buffer (st_ptr st) = Inr chunksize \<and>
           readUint16LE buffer (st_ptr st + 4) = Inr ctype \<and>
           st_ptr st1 = st_ptr st + chunksize \<and> pchunk_last st1 \<and>
           (\<forall>rs. attach_userdata ext fs
                   ((ctype, subarray buffer (int (st_ptr st) + 6)
                              (int (st_ptr st) + int chunksize)) # rs)
                   (st_chunks st) = attach_userdata ext fs rs (st_chunks st1))"
proof -
  from assms(1) obtain chunksize ctype where
    r1: "readUint32LE buffer (st_ptr st) = Inr chunksize" and
    r2: "readUint16LE buffer (st_ptr st + 4) = Inr ctype"
    by (auto simp: parseChunk_def bnd_Inr_iff)
  let ?d = "subarray buffer (int (st_ptr st) + 6) (int (st_ptr st) + int chunksize)"
  have "st_ptr st1 = st_ptr st + chunksize \<and> pchunk_last st1 \<and>
        (\<forall>rs. attach_userdata ext fs ((ctype, ?d) # rs) (st_chunks st) =
               attach_userdata ext fs rs (st_chunks st1))"
    using assms r1 r2
    by (auto simp: parseChunk_def bnd_Inr_iff Let_def push_chunk_def push_userdata_last
        push_userdata_Nil length_push_userdata pchunk_last_def decode_content_def
        split: if_splits option.splits)
  with r1 r2 show ?thesis by blast
qed

lemma parseChunks_refines:
  "parseChunks ext buffer fs n st = Inr st' \<Longrightarrow> pchunk_last st \<Longrightarrow>
   \<exists>rs. chunk_stream buffer n (st_ptr st) = Some rs \<and>
        attach_userdata ext fs rs (st_chunks st) = Inr (st_chunks st')"
proof (induction n arbitrary: st)
  case 0
  then show ?case by simp
next
  case (Suc n)
  from Suc.prems(1) obtain st1 where
    s1: "parseChunk ext buffer fs st = Inr st1" and
    s2: "parseChunks ext buffer fs n st1 = Inr st'"
    by (auto simp: bnd_Inr_iff)
  from parseChunk_step [OF s1 Suc.prems(2)] obtain chunksize ctype where
    r1: "readUint32LE buffer (st_ptr st) = Inr chunksize" and
    r2: "readUint16LE buffer (st_ptr st + 4) = Inr ctype" and
    p: "st_ptr st1 = st_ptr st + chunksize" and inv: "pchunk_last st1" and
    at: "\<And>rs. attach_userdata ext fs
                   ((ctype, subarray buffer (int (st_ptr st) + 6)
                              (int (st_ptr st) + int chunksize)) # rs)
                   (st_chunks st) = attach_userdata ext fs rs (st_chunks st1)"
    by blast
  from Suc.IH [OF s2 inv] obtain rs where
    cs: "chunk_stream buffer n (st_ptr st1) = Some rs" and
    a: "attach_userdata ext fs rs (st_chunks st1) = Inr (st_chunks st')"
    by blast
  show ?case
    using r1 r2 cs a at p by (simp del: attach_userdata.simps)
qed

lemma attach_userdata_length:
  "attach_userdata ext fs rs cs = Inr cs' \<Longrightarrow>
   length cs' =
     length cs + length (filter (\<lambda>r. fst r \<in> {0x0004, 0x2004, 0x2005, 0x2007, 0x2018}) rs)"
proof (induction rs arbitrary: cs)
  case Nil
  then show ?case by simp
next
  case (Cons r rs)
  then show ?case
    by (fastforce simp: bnd_Inr_iff decode_content_def split: if_splits option.splits)
qed

text \<open>
  C3. The chunk list that the loop builds for a frame is the one the rule of the specification
  gives on the chunks of that frame: every user-data chunk is appended, in order, to the user
  data of the content chunk decoded last before it in the same frame, or dropped when there is
  none. The list has one entry for every chunk of a content type and none for a user-data chunk.
\<close>

theorem userdata_folded:
  assumes "parseChunks ext buffer fs n
             \<lparr> st_ptr = ptr, st_chunks = [], st_pchunk = None, st_seentypes = seen \<rparr> = Inr st"
  shows "\<exists>rs. chunk_stream buffer n ptr = Some rs \<and>
              attach_userdata ext fs rs [] = Inr (st_chunks st) \<and>
              length (st_chunks st) =
                length (filter (\<lambda>r. fst r \<in> {0x0004, 0x2004, 0x2005, 0x2007, 0x2018}) rs) \<and>
              (\<forall>c \<in> set (st_chunks st). chunk_type c \<noteq> 0x2020)"
proof -
  let ?st0 = "\<lparr> st_ptr = ptr, st_chunks = [], st_pchunk = None, st_seentypes = seen \<rparr>"
  have "pchunk_last ?st0" by (simp add: pchunk_last_def)
  from parseChunks_refines [OF assms this] obtain rs where
    cs: "chunk_stream buffer n ptr = Some rs" and
    a: "attach_userdata ext fs rs [] = Inr (st_chunks st)"
    by auto
  from attach_userdata_length [OF a] have
    len: "length (st_chunks st) =
       length (filter (\<lambda>r. fst r \<in> {0x0004, 0x2004, 0x2005, 0x2007, 0x2018}) rs)"
    by simp
  have ty: "\<forall>c \<in> set (st_chunks st). chunk_type c \<noteq> 0x2020"
    by (auto simp: chunk_type_def split: AseChunkData.splits)
  from cs a len ty show ?thesis by blast
qed

theorem userdata_folded_witness:
  "parseChunks ext0 userdata_chunks [] 4
     \<lparr> st_ptr = 0, st_chunks = [], st_pchunk = None, st_seentypes = [] \<rparr> =
     Inr \<lparr> st_ptr = 45,
           st_chunks =
             [\<lparr> data = ColorProfile \<lparr> color_type = 1, specialFixedGamma = True, gamma = 0 \<rparr>,
                userdata = [\<lparr> ud_text = None, ud_color = Some [1, 2, 3, 4] \<rparr>,
                            \<lparr> ud_text = Some [97], ud_color = None \<rparr>] \<rparr>],
           st_pchunk = Some 0, st_seentypes = [] \<rparr> \<and>
   (\<exists>rs. chunk_stream userdata_chunks 4 0 = Some rs \<and>
         attach_userdata ext0 [] rs [] =
           Inr [\<lparr> data = ColorProfile \<lparr> color_type = 1, specialFixedGamma = True, gamma = 0 \<rparr>,
                  userdata = [\<lparr> ud_text = None, ud_color = Some [1, 2, 3, 4] \<rparr>,
                              \<lparr> ud_text = Some [97], ud_color = None \<rparr>] \<rparr>] \<and>
         length (filter (\<lambda>r. fst r \<in> {0x0004, 0x2004, 0x2005, 0x2007, 0x2018}) rs) = 1)"
proof -
  have h: "parseChunks ext0 userdata_chunks [] 4
     \<lparr> st_ptr = 0, st_chunks = [], st_pchunk = None, st_seentypes = [] \<rparr> =
     Inr \<lparr> st_ptr = 45,
           st_chunks =
             [\<lparr> data = ColorProfile \<lparr> color_type = 1, specialFixedGamma = True, gamma = 0 \<rparr>,
                userdata = [\<lparr> ud_text = None, ud_color = Some [1, 2, 3, 4] \<rparr>,
                            \<lparr> ud_text = Some [97], ud_color = None \<rparr>] \<rparr>],
           st_pchunk = Some 0, st_seentypes = [] \<rparr>"
    by (simp add: userdata_chunks_def parseChunks_numeral parseChunk_def readers
        parseColorProfile_def parseUserData_def readPstring_def ext0_def push_chunk_def
        push_userdata_def)
  let ?st = "\<lparr> st_ptr = 45,
           st_chunks =
             [\<lparr> data = ColorProfile \<lparr> color_type = 1, specialFixedGamma = True, gamma = 0 \<rparr>,
                userdata = [\<lparr> ud_text = None, ud_color = Some [1, 2, 3, 4] \<rparr>,
                            \<lparr> ud_text = Some [97], ud_color = None \<rparr>] \<rparr>],
           st_pchunk = Some 0, st_seentypes = [] \<rparr>"
  from userdata_folded [OF h] obtain rs where
    a: "chunk_stream userdata_chunks 4 0 = Some rs" and
    b: "attach_userdata ext0 [] rs [] = Inr (st_chunks ?st)" and
    c: "length (st_chunks ?st) =
          length (filter (\<lambda>r. fst r \<in> {0x0004, 0x2004, 0x2005, 0x2007, 0x2018}) rs)"
    by blast
  from b have b': "attach_userdata ext0 [] rs [] =
           Inr [\<lparr> data = ColorProfile \<lparr> color_type = 1, specialFixedGamma = True, gamma = 0 \<rparr>,
                  userdata = [\<lparr> ud_text = None, ud_color = Some [1, 2, 3, 4] \<rparr>,
                              \<lparr> ud_text = Some [97], ud_color = None \<rparr>] \<rparr>]"
    by simp
  from c have c': "length (filter (\<lambda>r. fst r \<in> {0x0004, 0x2004, 0x2005, 0x2007, 0x2018}) rs) = 1"
    by simp
  from a b' c' have "\<exists>rs. chunk_stream userdata_chunks 4 0 = Some rs \<and>
         attach_userdata ext0 [] rs [] =
           Inr [\<lparr> data = ColorProfile \<lparr> color_type = 1, specialFixedGamma = True, gamma = 0 \<rparr>,
                  userdata = [\<lparr> ud_text = None, ud_color = Some [1, 2, 3, 4] \<rparr>,
                              \<lparr> ud_text = Some [97], ud_color = None \<rparr>] \<rparr>] \<and>
         length (filter (\<lambda>r. fst r \<in> {0x0004, 0x2004, 0x2005, 0x2007, 0x2018}) rs) = 1"
    by blast
  with h show ?thesis by (rule conjI)
qed

subsection \<open>Decoding failures\<close>

lemma parseChunk_ptr:
  "parseChunk ext buffer fs st = Inr st' \<Longrightarrow>
   \<exists>chunksize. readUint32LE buffer (st_ptr st) = Inr chunksize \<and>
               st_ptr st' = st_ptr st + chunksize \<and> st_ptr st + 6 \<le> length buffer"
  by (auto simp: parseChunk_def bnd_Inr_iff Let_def push_chunk_def readUint16LE_def
      split: if_splits option.splits)

lemma parseChunks_ptr_mono:
  "parseChunks ext buffer fs n st = Inr st' \<Longrightarrow> st_ptr st \<le> st_ptr st'"
proof (induction n arbitrary: st)
  case 0
  then show ?case by simp
next
  case (Suc n)
  then obtain st1 where s1: "parseChunk ext buffer fs st = Inr st1"
    and s2: "parseChunks ext buffer fs n st1 = Inr st'"
    by (auto simp: bnd_Inr_iff)
  from parseChunk_ptr [OF s1] have "st_ptr st \<le> st_ptr st1" by auto
  with Suc.IH [OF s2] show ?case by simp
qed


lemma length_subarray_pos:
  "length (subarray buffer (int ptr) (int ptr + 16)) = min 16 (length buffer - ptr)"
  by (auto simp: subarray_def rel_index_def Let_def min_def)

lemma frameParser_length: "frameParser raw = Inr f \<Longrightarrow> 14 \<le> length raw"
  by (auto simp: frameParser_def split: if_splits)

lemma parseFrames_length:
  "parseFrames ext buffer n ptr fs seen = Inr r \<Longrightarrow>
   length (fst r) = length fs + n \<and> (0 < n \<longrightarrow> ptr + 16 * n \<le> length buffer + 2)"
proof (induction n arbitrary: ptr fs seen)
  case 0
  then show ?case by auto
next
  case (Suc n)
  from Suc.prems obtain frame st where
    f: "frameParser (subarray buffer (int ptr) (int ptr + 16)) = Inr frame" and
    c: "parseChunks ext buffer fs
            (if chunk_count frame = 0 then chunk_count_old frame else chunk_count frame)
            \<lparr> st_ptr = ptr + 16, st_chunks = [], st_pchunk = None, st_seentypes = seen \<rparr>
          = Inr st" and
    r: "parseFrames ext buffer n (st_ptr st)
           (fs @ [\<lparr> duration = frame_duration frame, chunks = st_chunks st \<rparr>])
           (st_seentypes st) = Inr r"
    by (auto simp: bnd_Inr_iff)
  from frameParser_length [OF f] have b: "ptr + 14 \<le> length buffer"
    by (simp add: length_subarray_pos)
  from parseChunks_ptr_mono [OF c] have m: "ptr + 16 \<le> st_ptr st" by simp
  from Suc.IH [OF r] b m show ?case by auto
qed

lemma headerParser_length: "headerParser raw = Inr h \<Longrightarrow> 124 \<le> length raw"
  by (auto simp: headerParser_def split: if_splits)

lemma parseFile_frames:
  assumes "parseFile ext buffer = Inr p"
  shows "length (frames p) = frame_count (header p)"
    and "0 < frame_count (header p) \<Longrightarrow> 126 + 16 * frame_count (header p) \<le> length buffer"
proof -
  from assms obtain h r where
    h: "headerParser (subarray buffer 0 128) = Inr h" and
    r: "parseFrames ext buffer
          (frame_count (if color_number h = 0 then h \<lparr> color_number := 256 \<rparr> else h)) 128 [] []
        = Inr r" and
    p: "p = \<lparr> header = (if color_number h = 0 then h \<lparr> color_number := 256 \<rparr> else h),
              frames = fst r, types = snd r \<rparr>"
    by (auto simp: parseFile_def bnd_Inr_iff Let_def)
  from parseFrames_length [OF r] p
  show "length (frames p) = frame_count (header p)"
    and "0 < frame_count (header p) \<Longrightarrow> 126 + 16 * frame_count (header p) \<le> length buffer"
    by auto
qed






subsection \<open>The tag table\<close>

lemma find_Some_split:
  "find P xs = Some x \<Longrightarrow> \<exists>pre post. xs = pre @ x # post \<and> (\<forall>c \<in> set pre. \<not> P c) \<and> P x"
proof (induction xs)
  case Nil
  then show ?case by simp
next
  case (Cons a xs)
  show ?case
  proof (cases "P a")
    case True
    with Cons.prems have "a = x" by simp
    with True show ?thesis by (intro exI [of _ "[]"] exI [of _ xs]) simp
  next
    case False
    with Cons.prems have "find P xs = Some x" by simp
    from Cons.IH [OF this] obtain pre post where
      "xs = pre @ x # post" "\<forall>c \<in> set pre. \<not> P c" "P x" by blast
    with False show ?thesis by (intro exI [of _ "a # pre"] exI [of _ post]) simp
  qed
qed

lemma chunk_type_Tags: "chunk_type e = 0x2018 \<longleftrightarrow> (\<exists>ts. data e = Tags ts)"
  by (auto simp: chunk_type_def split: AseChunkData.splits)

lemma generate_Inr:
  assumes "generate ext animdata p = Inr g"
  shows "\<exists>uc r e ts.
           uniquecells (layers p) (cells p)
             (added (dedup (map (\<lambda>e. crc ext (pixels e)) (cells p)))) = Inr uc \<and>
           emit_layers (gen_env_of ext p uc) animdata (usedlayers p) (layerid p)
             ((replicate (6 * length (usedlayers p) * frame_count (header p)) 0, 0), []) = Inr r \<and>
           find (\<lambda>e. chunk_type e = 0x2018) (concat (map chunks (frames p))) = Some e \<and>
           data e = Tags ts \<and>
           g = \<lparr> extent = (h_width (header p), h_height (header p)),
                 g_frame_count = frame_count (header p),
                 anims = retagged ts,
                 g_flags = flags_of (animflags (usedlayers p)),
                 layers_props = snd r,
                 frame_durations = map duration (frames p),
                 g_animdata = (if animdata then Some (fst (fst r)) else None) \<rparr>"
proof -
  from assms obtain uc r where
    u: "uniquecells (layers p) (cells p)
          (added (dedup (map (\<lambda>e. crc ext (pixels e)) (cells p)))) = Inr uc" and
    r: "emit_layers (gen_env_of ext p uc) animdata (usedlayers p) (layerid p)
          ((replicate (6 * length (usedlayers p) * frame_count (header p)) 0, 0), []) = Inr r" and
    k: "(case find (\<lambda>e. chunk_type e = 0x2018) (concat (map chunks (frames p))) of
           None \<Rightarrow> Inl TypeError
         | Some e \<Rightarrow>
             (case data e of
                Tags ts \<Rightarrow>
                  Inr \<lparr> extent = (h_width (header p), h_height (header p)),
                        g_frame_count = frame_count (header p),
                        anims = retagged ts,
                        g_flags = flags_of (animflags (usedlayers p)),
                        layers_props = snd r,
                        frame_durations = map duration (frames p),
                        g_animdata = (if animdata then Some (fst (fst r)) else None) \<rparr>
              | _ \<Rightarrow> Inl TypeError)) = Inr g"
    unfolding generate_def bnd_Inr_iff by blast
  from k obtain e where
    f: "find (\<lambda>e. chunk_type e = 0x2018) (concat (map chunks (frames p))) = Some e"
    by (cases "find (\<lambda>e. chunk_type e = 0x2018) (concat (map chunks (frames p)))") auto
  from k f obtain ts where d: "data e = Tags ts"
    by (cases "data e") auto
  from k f d have
    g: "g = \<lparr> extent = (h_width (header p), h_height (header p)),
                 g_frame_count = frame_count (header p),
                 anims = retagged ts,
                 g_flags = flags_of (animflags (usedlayers p)),
                 layers_props = snd r,
                 frame_durations = map duration (frames p),
                 g_animdata = (if animdata then Some (fst (fst r)) else None) \<rparr>"
    by simp
  show ?thesis
    by (intro exI [of _ uc] exI [of _ r] exI [of _ e] exI [of _ ts] conjI) (fact u r f d g)+
qed

text \<open>
  C6, as the code has it. The tag table is built from one Tags chunk, the first in decode order:
  no chunk before it in the concatenated chunk lists of the frames is a Tags chunk. Without any
  Tags chunk the generation fails.
\<close>

theorem tags_first_wins:
  assumes "generate ext animdata p = Inr g"
  shows "\<exists>pre e post ts.
           concat (map chunks (frames p)) = pre @ e # post \<and>
           (\<forall>c \<in> set pre. chunk_type c \<noteq> 0x2018) \<and>
           data e = Tags ts \<and> anims g = retagged ts"
proof -
  from generate_Inr [OF assms] obtain e ts where
    f: "find (\<lambda>e. chunk_type e = 0x2018) (concat (map chunks (frames p))) = Some e" and
    d: "data e = Tags ts" and a: "anims g = retagged ts"
    by auto
  from find_Some_split [OF f] obtain pre post where
    "concat (map chunks (frames p)) = pre @ e # post" "\<forall>c \<in> set pre. chunk_type c \<noteq> 0x2018"
    by blast
  with d a show ?thesis by blast
qed

lemma two_tags_parse:
  "\<exists>h. parseFile ext0 two_tags_file = Inr \<lparr> header = h, frames = two_tags_frames, types = [] \<rparr>"
  by (simp add: two_tags_file_def two_tags_frames_def file_eval parseTagsChunk_def
      readPstring_def ext0_def)

lemmas generate_eval =
  generate_def gen_env_of_def chunk_type_def as_cel_def layers_def usedlayers_def layerid_def cells_def frame_cells_def
  dedup_def dedup_step_def celtoitem_def animflags_def flags_of_def new_Set_def set_add_def
  List.map_filter_def retagged_def

lemma two_tags_generate:
  "\<exists>g. generate ext0 False \<lparr> header = h, frames = two_tags_frames, types = [] \<rparr> = Inr g \<and>
        anims g = retagged [\<lparr> tag_from = 0, tag_to = 0, tag_loop_type = Some 0,
                                   tag_repeat = 0, tag_color = [Some 0, Some 0, Some 0],
                                   tag_name = [97] \<rparr>]"
  by (simp add: two_tags_frames_def generate_eval)

lemma two_tags_latest:
  "tags_latest \<lparr> header = h, frames = two_tags_frames, types = [] \<rparr> =
     Some [\<lparr> tag_from = 1, tag_to = 1, tag_loop_type = Some 0,
                                   tag_repeat = 0, tag_color = [Some 0, Some 0, Some 0],
                                   tag_name = [97] \<rparr>]"
  by (simp add: two_tags_frames_def tags_latest_def chunk_type_def)

text \<open>On a file with two Tags chunks the table holds the tag of the first chunk, not the tag of
  the chunk decoded last.\<close>

theorem tags_latest_counterexample:
  "\<exists>g p ts. doGeneration ext0 two_tags_file False = Inr g \<and>
            parseFile ext0 two_tags_file = Inr p \<and>
            tags_latest p = Some ts \<and>
            anims g (js ''a'') = Some (0, 0, Some 0, 0) \<and>
            retagged ts (js ''a'') = Some (1, 1, Some 0, 0) \<and>
            anims g \<noteq> retagged ts"
proof -
  from two_tags_parse obtain h where
    p: "parseFile ext0 two_tags_file = Inr \<lparr> header = h, frames = two_tags_frames, types = [] \<rparr>"
    by blast
  from two_tags_generate [of h] obtain g where
    g: "generate ext0 False \<lparr> header = h, frames = two_tags_frames, types = [] \<rparr> = Inr g" and
    a: "anims g = retagged [\<lparr> tag_from = 0, tag_to = 0, tag_loop_type = Some 0,
                                   tag_repeat = 0, tag_color = [Some 0, Some 0, Some 0],
                                   tag_name = [97] \<rparr>]"
    by blast
  let ?ts = "[\<lparr> tag_from = 1, tag_to = 1, tag_loop_type = Some 0,
                                   tag_repeat = 0, tag_color = [Some 0, Some 0, Some 0],
                                   tag_name = [97] \<rparr>]"
  have d: "doGeneration ext0 two_tags_file False = Inr g"
    by (simp add: doGeneration_def p g)
  have v1: "anims g (js ''a'') = Some (0, 0, Some 0, 0)"
    by (simp add: a retagged_def js_def)
  have v2: "retagged ?ts (js ''a'') = Some (1, 1, Some 0, 0)"
    by (simp add: retagged_def js_def)
  from v1 v2 have ne: "anims g \<noteq> retagged ?ts" by auto
  from d p two_tags_latest [of h] v1 v2 ne show ?thesis by blast
qed

theorem tags_first_wins_witness:
  "\<exists>g h pre e post.
     generate ext0 False \<lparr> header = h, frames = two_tags_frames, types = [] \<rparr> = Inr g \<and>
     concat (map chunks two_tags_frames) = pre @ e # post \<and>
     pre = [] \<and> e = hd (chunks (hd two_tags_frames)) \<and>
     anims g (js ''a'') = Some (0, 0, Some 0, 0)"
proof -
  from two_tags_generate [of undefined] obtain g where
    g: "generate ext0 False \<lparr> header = undefined, frames = two_tags_frames, types = [] \<rparr> = Inr g"
    and a: "anims g = retagged [\<lparr> tag_from = 0, tag_to = 0, tag_loop_type = Some 0,
                                   tag_repeat = 0, tag_color = [Some 0, Some 0, Some 0],
                                   tag_name = [97] \<rparr>]"
    by blast
  from tags_first_wins [OF g] obtain pre e post ts where
    c: "concat (map chunks two_tags_frames) = pre @ e # post" and
    n: "\<forall>c \<in> set pre. chunk_type c \<noteq> 0x2018" and
    d: "data e = Tags ts" and r: "anims g = retagged ts"
    by auto
  from c n have "pre = []"
    by (cases pre) (auto simp: two_tags_frames_def chunk_type_def)
  with c have "e = hd (chunks (hd two_tags_frames))"
    by (simp add: two_tags_frames_def)
  moreover have "anims g (js ''a'') = Some (0, 0, Some 0, 0)"
    by (simp add: a retagged_def js_def)
  ultimately show ?thesis using g c \<open>pre = []\<close> by blast
qed

subsection \<open>The emission loops\<close>

lemma arr_inv_init: "arr_inv n (replicate n 0, 0) []"
  by (simp add: arr_inv_def)

lemma arr_inv_store:
  assumes "arr_inv n ap ws"
  shows "arr_inv n (store ap v) (ws @ [word_of_int v])"
proof -
  from assms have a: "fst ap = take n (ws @ replicate n 0)" and p: "snd ap = length ws"
    by (simp_all add: arr_inv_def)
  have "(take n (ws @ replicate n 0))[length ws := word_of_int v] =
        take n ((ws @ [word_of_int v]) @ replicate n (0 :: 16 word))"
    by (rule nth_equalityI) (auto simp: nth_append nth_list_update)
  with a p show ?thesis by (simp add: arr_inv_def store_def)
qed

lemma arr_inv_foldl_store:
  "arr_inv n ap ws \<Longrightarrow> arr_inv n (foldl store ap vs) (ws @ map word_of_int vs)"
proof (induction vs arbitrary: ap ws)
  case Nil
  then show ?case by simp
next
  case (Cons v vs)
  from arr_inv_store [OF Cons.prems, of v] have "arr_inv n (store ap v) (ws @ [word_of_int v])" .
  from Cons.IH [OF this] show ?case by simp
qed

lemma emit_cel_record:
  "emit_cel env c ap = Inr ap' \<longleftrightarrow> (\<exists>vs. record_of env c = Some vs \<and> ap' = foldl store ap vs)"
  by (auto simp: emit_cel_def record_of_def Let_def split: option.splits)

lemma emit_cells_defined:
  "emit_cells env lid cs ap = Inr ap' \<Longrightarrow>
   \<forall>c \<in> set cs. Some (layeridx (e_cells env ! c)) = lid \<longrightarrow> record_of env c \<noteq> None"
proof (induction cs arbitrary: ap)
  case Nil
  then show ?case by simp
next
  case (Cons c cs)
  show ?case
  proof (cases "Some (layeridx (e_cells env ! c)) = lid")
    case False
    with Cons.prems have "emit_cells env lid cs ap = Inr ap'" by simp
    from Cons.IH [OF this] False show ?thesis by simp
  next
    case True
    with Cons.prems obtain ap1 where
      e: "emit_cel env c ap = Inr ap1" and r: "emit_cells env lid cs ap1 = Inr ap'"
      by (auto simp: bnd_Inr_iff)
    from e have "record_of env c \<noteq> None" by (auto simp: emit_cel_record)
    with Cons.IH [OF r] show ?thesis by simp
  qed
qed

lemma emit_cells_stream:
  "emit_cells env lid cs ap = Inr ap' \<Longrightarrow> arr_inv n ap ws \<Longrightarrow>
   arr_inv n ap' (ws @ layer_stream env lid cs)"
proof (induction cs arbitrary: ap ws)
  case Nil
  then show ?case by (simp add: layer_stream_def)
next
  case (Cons c cs)
  show ?case
  proof (cases "Some (layeridx (e_cells env ! c)) = lid")
    case False
    with Cons.prems have "emit_cells env lid cs ap = Inr ap'" by simp
    from Cons.IH [OF this Cons.prems(2)] False show ?thesis
      by (simp add: layer_stream_def)
  next
    case True
    with Cons.prems obtain ap1 where
      e: "emit_cel env c ap = Inr ap1" and r: "emit_cells env lid cs ap1 = Inr ap'"
      by (auto simp: bnd_Inr_iff)
    from e obtain vs where v: "record_of env c = Some vs" and a: "ap1 = foldl store ap vs"
      by (auto simp: emit_cel_record)
    from arr_inv_foldl_store [OF Cons.prems(2), of vs] a
    have "arr_inv n ap1 (ws @ map word_of_int vs)" by simp
    from Cons.IH [OF r this] True v show ?thesis
      by (simp add: layer_stream_def)
  qed
qed

lemma emit_layers_step:
  "emit_layers env animdata (l # ls) (i # lids') st =
     bnd (if animdata then emit_cells env (Some i) [0..<length (e_cells env)] (fst st)
          else Inr (fst st)) (\<lambda>ap.
     bnd (layer_flags (e_flags env) l) (\<lambda>m.
       emit_layers env animdata ls lids' (ap, snd st @ [m])))"
  by (cases animdata) (simp_all add: layer_flags_def)

lemma emit_layers_flags:
  "emit_layers env animdata used lids st = Inr st' \<Longrightarrow> length lids = length used \<Longrightarrow>
   \<exists>ms. snd st' = snd st @ ms \<and> list_all2 (\<lambda>m l. layer_flags (e_flags env) l = Inr m) ms used"
proof (induction used arbitrary: lids st)
  case Nil
  then show ?case by simp
next
  case (Cons l ls)
  from Cons.prems(2) obtain i lids' where lids: "lids = i # lids'" and len: "length lids' = length ls"
    by (cases lids) auto
  from Cons.prems(1) obtain ap m where
    m: "layer_flags (e_flags env) l = Inr m" and
    r: "emit_layers env animdata ls lids' (ap, snd st @ [m]) = Inr st'"
    unfolding lids emit_layers_step bnd_Inr_iff by blast
  from Cons.IH [OF r len] obtain ms where
    ms: "snd st' = (snd st @ [m]) @ ms"
        "list_all2 (\<lambda>m l. layer_flags (e_flags env) l = Inr m) ms ls"
    by auto
  with m show ?case by (intro exI [of _ "m # ms"]) simp
qed

lemma emit_layers_stream:
  "emit_layers env True used lids st = Inr st' \<Longrightarrow> length lids = length used \<Longrightarrow>
   arr_inv n (fst st) ws \<Longrightarrow>
   arr_inv n (fst st')
     (ws @ concat (map (\<lambda>i. layer_stream env (Some i) [0..<length (e_cells env)]) lids))"
proof (induction used arbitrary: lids st ws)
  case Nil
  then show ?case by simp
next
  case (Cons l ls)
  from Cons.prems(2) obtain i lids' where lids: "lids = i # lids'" and len: "length lids' = length ls"
    by (cases lids) auto
  from Cons.prems(1) obtain ap m where
    e: "emit_cells env (Some i) [0..<length (e_cells env)] (fst st) = Inr ap" and
    r: "emit_layers env True ls lids' (ap, snd st @ [m]) = Inr st'"
    unfolding lids emit_layers_step bnd_Inr_iff by auto
  from emit_cells_stream [OF e Cons.prems(3)]
  have "arr_inv n (fst (ap, snd st @ [m]))
          (ws @ layer_stream env (Some i) [0..<length (e_cells env)])" by simp
  from Cons.IH [OF r len this] show ?case by (simp add: lids)
qed

lemma emit_layers_defined:
  "emit_layers env True used lids st = Inr st' \<Longrightarrow> length lids = length used \<Longrightarrow>
   \<forall>i \<in> set lids. \<forall>c < length (e_cells env).
     layeridx (e_cells env ! c) = i \<longrightarrow> record_of env c \<noteq> None"
proof (induction used arbitrary: lids st)
  case Nil
  then show ?case by simp
next
  case (Cons l ls)
  from Cons.prems(2) obtain i lids' where lids: "lids = i # lids'" and len: "length lids' = length ls"
    by (cases lids) auto
  from Cons.prems(1) obtain ap m where
    e: "emit_cells env (Some i) [0..<length (e_cells env)] (fst st) = Inr ap" and
    r: "emit_layers env True ls lids' (ap, snd st @ [m]) = Inr st'"
    unfolding lids emit_layers_step bnd_Inr_iff by auto
  from emit_cells_defined [OF e] Cons.IH [OF r len] show ?case
    by (auto simp: lids)
qed

lemma emit_layers_no_animdata:
  "emit_layers env False used lids st = Inr st' \<Longrightarrow> fst st' = fst st"
proof (induction used arbitrary: lids st)
  case Nil
  then show ?case by simp
next
  case (Cons l ls)
  from Cons.prems obtain m where
    "emit_layers env False ls (tl lids) (fst st, snd st @ [m]) = Inr st'"
    by (auto simp: bnd_Inr_iff)
  from Cons.IH [OF this] show ?case by simp
qed

subsection \<open>Deduplication and the cels of a frame\<close>

lemma first_index_less: "v \<in> set xs \<Longrightarrow> first_index xs v < length xs"
  unfolding first_index_def by (induction xs) auto

lemma first_index_take:
  "v \<in> set (take n xs) \<Longrightarrow> first_index (take n xs) v = first_index xs v"
proof -
  assume a: "v \<in> set (take n xs)"
  have "takeWhile (\<lambda>x. x \<noteq> v) (take n xs @ drop n xs) = takeWhile (\<lambda>x. x \<noteq> v) (take n xs)"
    using a by (intro takeWhile_append1 [where x = v]) auto
  then show ?thesis by (simp add: first_index_def)
qed

lemma first_index_new:
  assumes "n < length xs" and "xs ! n \<notin> set (take n xs)"
  shows "first_index xs (xs ! n) = n"
proof -
  have xs: "xs = take n xs @ xs ! n # drop (Suc n) xs"
    using assms(1) by (simp add: id_take_nth_drop)
  have "takeWhile (\<lambda>x. x \<noteq> xs ! n) (take n xs @ xs ! n # drop (Suc n) xs) = take n xs"
    using assms(2) by (subst takeWhile_append2) auto
  with xs have "takeWhile (\<lambda>x. x \<noteq> xs ! n) xs = take n xs" by simp
  then show ?thesis using assms(1) by (simp add: first_index_def)
qed

lemma dedup_upto:
  "n \<le> length crcs \<Longrightarrow>
   set (addedc (foldl (dedup_step crcs)
          \<lparr> addedc = [], added = [], crc2uniqcell = Map.empty \<rparr> [0..<n])) = set (take n crcs) \<and>
   (\<forall>v. crc2uniqcell (foldl (dedup_step crcs)
          \<lparr> addedc = [], added = [], crc2uniqcell = Map.empty \<rparr> [0..<n]) v =
        (if v \<in> set (take n crcs) then Some (first_index crcs v) else None)) \<and>
   added (foldl (dedup_step crcs)
          \<lparr> addedc = [], added = [], crc2uniqcell = Map.empty \<rparr> [0..<n]) =
     filter (\<lambda>i. first_index crcs (crcs ! i) = i) [0..<n]"
proof (induction n)
  case 0
  then show ?case by simp
next
  case (Suc n)
  let ?st = "foldl (dedup_step crcs)
          \<lparr> addedc = [], added = [], crc2uniqcell = Map.empty \<rparr> [0..<n]"
  from Suc have n: "n < length crcs" by simp
  from Suc have ih1: "set (addedc ?st) = set (take n crcs)"
    and ih2: "\<And>v. crc2uniqcell ?st v =
        (if v \<in> set (take n crcs) then Some (first_index crcs v) else None)"
    and ih3: "added ?st = filter (\<lambda>i. first_index crcs (crcs ! i) = i) [0..<n]"
    by auto
  have tk: "take (Suc n) crcs = take n crcs @ [crcs ! n]"
    using n by (simp add: take_Suc_conv_app_nth)
  have step: "foldl (dedup_step crcs)
          \<lparr> addedc = [], added = [], crc2uniqcell = Map.empty \<rparr> [0..<Suc n] =
        dedup_step crcs ?st n"
    by simp
  show ?case
  proof (cases "crcs ! n \<in> set (take n crcs)")
    case True
    then have "first_index crcs (crcs ! n) < n"
      using first_index_take [of "crcs ! n" n crcs] first_index_less [of "crcs ! n" "take n crcs"] n
      by simp
    then have "first_index crcs (crcs ! n) \<noteq> n" by simp
    with True ih1 ih2 ih3 show ?thesis
      unfolding step by (auto simp: dedup_step_def tk)
  next
    case False
    from first_index_new [OF n False] have fi: "first_index crcs (crcs ! n) = n" .
    with False ih1 ih2 ih3 show ?thesis
      unfolding step by (auto simp: dedup_step_def tk)
  qed
qed

lemma crc2uniqcell_dedup:
  "crc2uniqcell (dedup crcs) v = (if v \<in> set crcs then Some (first_index crcs v) else None)"
  using dedup_upto [of "length crcs" crcs] by (simp add: dedup_def)

lemma added_dedup:
  "added (dedup crcs) = filter (\<lambda>i. first_index crcs (crcs ! i) = i) [0..<length crcs]"
  using dedup_upto [of "length crcs" crcs] by (simp add: dedup_def)

lemma map_filter_nth:
  "map (\<lambda>c. f (xs ! c)) (filter (\<lambda>c. P (xs ! c)) [0..<length xs]) = map f (filter P xs)"
proof -
  have "map f (filter P xs) = map f (filter P (map (nth xs) [0..<length xs]))"
    by (simp add: map_nth)
  also have "\<dots> = map (\<lambda>c. f (xs ! c)) (filter (\<lambda>c. P (xs ! c)) [0..<length xs])"
    by (simp add: filter_map comp_def)
  finally show ?thesis by simp
qed

lemma filter_distinct_find:
  "distinct (map f xs) \<Longrightarrow>
   filter (\<lambda>k. f k = v) xs = (case find (\<lambda>k. f k = v) xs of Some k \<Rightarrow> [k] | None \<Rightarrow> [])"
proof (induction xs)
  case Nil
  then show ?case by simp
next
  case (Cons a xs)
  show ?case
  proof (cases "f a = v")
    case True
    from Cons.prems True have "v \<notin> f ` set xs" by simp
    then have "\<forall>k \<in> set xs. f k \<noteq> v" by blast
    then have "filter (\<lambda>k. f k = v) xs = []" by (simp add: filter_empty_conv)
    with True show ?thesis by simp
  next
    case False
    with Cons show ?thesis by simp
  qed
qed

lemma filter_frame_cells:
  assumes "i \<in> set lids" and "i < nlayers"
      and "distinct (map layeridx (List.map_filter as_cel (chunks e)))"
  shows "filter (\<lambda>k. layeridx k = i) (frame_cells nlayers lids e) = [frame_cel e i]"
proof -
  let ?ret = "List.map_filter as_cel (chunks e)"
  let ?rem = "filter (\<lambda>r. r \<in> set lids) (filter (\<lambda>i. i \<notin> set (map layeridx ?ret)) [0..<nlayers])"
  have fc: "frame_cells nlayers lids e = ?ret @ map empty_cel ?rem"
    by (simp add: frame_cells_def Let_def)
  have syn: "filter (\<lambda>k. layeridx k = i) (map empty_cel ?rem) =
             map empty_cel (filter (\<lambda>r. r = i) ?rem)"
    by (simp add: filter_map comp_def empty_cel_def)
  have one: "filter (\<lambda>r. r = i) [0..<nlayers] = [i]"
  proof -
    have "[0..<nlayers] = [0..<i] @ i # [Suc i..<nlayers]"
      using assms(2) by (metis less_imp_add_positive upt_add_eq_append upt_conv_Cons zero_le le_add1 add.commute)
    then show ?thesis by (auto simp: filter_empty_conv)
  qed
  show ?thesis
  proof (cases "find (\<lambda>k. layeridx k = i) ?ret")
    case None
    then have no: "\<forall>k \<in> set ?ret. layeridx k \<noteq> i" by (auto simp: find_None_iff)
    then have r: "filter (\<lambda>k. layeridx k = i) ?ret = []" by (simp add: filter_empty_conv)
    from no have ni: "i \<notin> set (map layeridx ?ret)" by auto
    have "filter (\<lambda>r. r = i) ?rem = filter (\<lambda>r. r = i) [0..<nlayers]"
      using ni assms(1) by (auto intro: filter_cong)
    with one have "filter (\<lambda>r. r = i) ?rem = [i]" by simp
    with r syn None show ?thesis by (simp add: fc frame_cel_def)
  next
    case (Some k)
    from filter_distinct_find [OF assms(3), of i] Some
    have r: "filter (\<lambda>k. layeridx k = i) ?ret = [k]" by simp
    from Some have "k \<in> set ?ret" "layeridx k = i" by (auto simp: find_Some_iff)
    then have "i \<in> set (map layeridx ?ret)" by force
    then have "filter (\<lambda>r. r = i) ?rem = []" by (auto simp: filter_empty_conv)
    with r syn Some show ?thesis by (simp add: fc frame_cel_def)
  qed
qed

subsection \<open>The animation record array\<close>

lemma gen_env_sel:
  "e_cells (gen_env_of ext p uc) = cells p"
  "e_crcs (gen_env_of ext p uc) = map (\<lambda>e. crc ext (pixels e)) (cells p)"
  "e_crc2uniqcell (gen_env_of ext p uc) =
     crc2uniqcell (dedup (map (\<lambda>e. crc ext (pixels e)) (cells p)))"
  "e_celtoitem (gen_env_of ext p uc) =
     celtoitem (pack ext (map (\<lambda>c. (c, width (cells p ! c), height (cells p ! c))) uc))"
  "e_flags (gen_env_of ext p uc) = flags_of (animflags (usedlayers p))"
  by (simp_all add: gen_env_of_def Let_def)

lemma record_of_gen:
  assumes uc: "uniquecells (layers p) (cells p)
                 (added (dedup (map (\<lambda>e. crc ext (pixels e)) (cells p)))) = Inr uc"
      and c: "c < length (cells p)"
      and d: "record_of (gen_env_of ext p uc) c \<noteq> None"
  shows "record_of (gen_env_of ext p uc) c = Some (anim_record ext p (cells p ! c))"
    and "width (cells p ! c) \<noteq> 0 \<Longrightarrow>
         atlas ext p (representative ext p (cells p ! c)) \<noteq> None"
proof -
  let ?crcs = "map (\<lambda>e. crc ext (pixels e)) (cells p)"
  have in_set: "?crcs ! c \<in> set ?crcs" using c by (intro nth_mem) simp
  have crc_c: "?crcs ! c = crc ext (pixels (cells p ! c))" using c by simp
  have rep: "crc2uniqcell (dedup ?crcs) (?crcs ! c) = Some (representative ext p (cells p ! c))"
    using in_set by (simp only: crc2uniqcell_dedup representative_def crc_c if_True)
  have at: "atlas ext p =
      celtoitem (pack ext (map (\<lambda>c. (c, width (cells p ! c), height (cells p ! c))) uc))"
    by (simp add: atlas_def uc)
  have ro: "record_of (gen_env_of ext p uc) c =
     (if width (cells p ! c) = 0 then Some [0, 0, 0, 0, 0, 0]
      else (case atlas ext p (representative ext p (cells p ! c)) of
              None \<Rightarrow> None
            | Some zone \<Rightarrow>
                Some [cel_x (cells p ! c), cel_y (cells p ! c), int (width (cells p ! c)),
                      int (height (cells p ! c)), fst zone, snd zone]))"
    unfolding record_of_def Let_def gen_env_sel at rep by simp
  from d ro show "record_of (gen_env_of ext p uc) c = Some (anim_record ext p (cells p ! c))"
    by (auto simp: anim_record_def split: option.splits if_splits)
  from d ro show "width (cells p ! c) \<noteq> 0 \<Longrightarrow>
         atlas ext p (representative ext p (cells p ! c)) \<noteq> None"
    by (auto split: option.splits if_splits)
qed

lemma layer_stream_gen:
  assumes uc: "uniquecells (layers p) (cells p)
                 (added (dedup (map (\<lambda>e. crc ext (pixels e)) (cells p)))) = Inr uc"
      and d: "\<forall>c < length (cells p). layeridx (cells p ! c) = i \<longrightarrow>
                record_of (gen_env_of ext p uc) c \<noteq> None"
  shows "layer_stream (gen_env_of ext p uc) (Some i) [0..<length (cells p)] =
         map word_of_int (concat (map (anim_record ext p)
           (filter (\<lambda>k. layeridx k = i) (cells p))))"
proof -
  have "map (\<lambda>c. the (record_of (gen_env_of ext p uc) c))
          (filter (\<lambda>c. layeridx (cells p ! c) = i) [0..<length (cells p)]) =
        map (\<lambda>c. anim_record ext p (cells p ! c))
          (filter (\<lambda>c. layeridx (cells p ! c) = i) [0..<length (cells p)])"
  proof (rule map_cong [OF refl])
    fix c
    assume "c \<in> set (filter (\<lambda>c. layeridx (cells p ! c) = i) [0..<length (cells p)])"
    then have c: "c < length (cells p)" "layeridx (cells p ! c) = i" by auto
    with d have "record_of (gen_env_of ext p uc) c \<noteq> None" by blast
    from record_of_gen(1) [OF uc c(1) this]
    show "the (record_of (gen_env_of ext p uc) c) = anim_record ext p (cells p ! c)" by simp
  qed
  also have "\<dots> = map (anim_record ext p) (filter (\<lambda>k. layeridx k = i) (cells p))"
    by (rule map_filter_nth)
  finally show ?thesis by (simp add: layer_stream_def gen_env_sel)
qed

lemma layerid_less: "i \<in> set (layerid p) \<Longrightarrow> i < length (layers p)"
  by (simp add: layerid_def)

lemma usedlayers_layerid: "usedlayers p = map (nth (layers p)) (layerid p)"
  unfolding usedlayers_def layerid_def
  using map_filter_nth [of "\<lambda>x. x" "layers p" "\<lambda>l. userdata l \<noteq> []"] by simp

lemma length_usedlayers: "length (usedlayers p) = length (layerid p)"
  by (simp add: usedlayers_layerid)

lemma concat_map_singleton: "concat (map (\<lambda>x. [f x]) xs) = map f xs"
  by (induction xs) simp_all

lemma filter_cells:
  assumes "i \<in> set (layerid p)" and "one_cel_per_layer p"
  shows "filter (\<lambda>k. layeridx k = i) (cells p) = map (\<lambda>e. frame_cel e i) (frames p)"
proof -
  have "filter (\<lambda>k. layeridx k = i) (cells p) =
        concat (map (\<lambda>e. filter (\<lambda>k. layeridx k = i)
                       (frame_cells (length (layers p)) (layerid p) e)) (frames p))"
    by (simp add: cells_def filter_concat comp_def)
  also have "\<dots> = concat (map (\<lambda>e. [frame_cel e i]) (frames p))"
    using assms layerid_less [OF assms(1)]
    by (intro arg_cong [where f = concat] map_cong refl filter_frame_cells)
       (auto simp: one_cel_per_layer_def)
  finally show ?thesis by (simp add: concat_map_singleton)
qed

lemma length_concat_const:
  "(\<And>x. x \<in> set xs \<Longrightarrow> length (f x) = k) \<Longrightarrow> length (concat (map f xs)) = k * length xs"
  by (induction xs) simp_all

lemma arr_inv_full: "arr_inv n ap ws \<Longrightarrow> length ws = n \<Longrightarrow> fst ap = ws"
  by (simp add: arr_inv_def)

lemma length_anim_record: "length (anim_record ext p cel) = 6"
  by (simp add: anim_record_def)

lemma frame_cel_in_cells:
  assumes "i \<in> set (layerid p)" and "one_cel_per_layer p" and "e \<in> set (frames p)"
  shows "\<exists>c < length (cells p). cells p ! c = frame_cel e i \<and> layeridx (cells p ! c) = i"
proof -
  from assms(3) have "frame_cel e i \<in> set (map (\<lambda>e. frame_cel e i) (frames p))" by simp
  with filter_cells [OF assms(1,2)] have "frame_cel e i \<in> set (filter (\<lambda>k. layeridx k = i) (cells p))"
    by simp
  then have "frame_cel e i \<in> set (cells p)" "layeridx (frame_cel e i) = i" by auto
  then show ?thesis by (auto simp: in_set_conv_nth)
qed

text \<open>
  C1, as the code has it. For a decoded document in which no frame holds two cel chunks with the
  same layer index, the animation array of a generation that succeeds has
  \<open>6 * (number of used layers) * frame_count\<close> values: for every used layer in declaration
  order, and within it for every frame in order, the record of the cel of that layer in that
  frame (the placeholder when the frame has no cel chunk for the layer): six zeros when the
  width of the cel is 0, otherwise x, y, width and height of the cel and the atlas origin of its
  fingerprint representative. The loop compares with \<open>layerid[0]\<close> and shifts
  \<open>layerid\<close> after every layer, so each layer gets the cels of its own index.
\<close>

theorem animation_records_layer_major:
  assumes parse: "parseFile ext file = Inr p"
      and gen: "doGeneration ext file True = Inr g"
      and one: "one_cel_per_layer p"
  shows "g_animdata g =
           Some (map word_of_int
             (concat (map (\<lambda>i. concat (map (\<lambda>e. anim_record ext p (frame_cel e i)) (frames p)))
                       (layerid p)))) \<and>
         length (the (g_animdata g)) = 6 * length (usedlayers p) * frame_count (header p) \<and>
         length (frames p) = frame_count (header p) \<and>
         (\<forall>i \<in> set (layerid p). \<forall>e \<in> set (frames p).
            width (frame_cel e i) \<noteq> 0 \<longrightarrow>
            atlas ext p (representative ext p (frame_cel e i)) \<noteq> None)"
proof -
  from parse gen have gp: "generate ext True p = Inr g"
    by (simp add: doGeneration_def)
  from parseFile_frames(1) [OF parse] have fc: "length (frames p) = frame_count (header p)" .
  let ?n = "6 * length (usedlayers p) * frame_count (header p)"
  from generate_Inr [OF gp] obtain uc r where
    uc: "uniquecells (layers p) (cells p)
           (added (dedup (map (\<lambda>e. crc ext (pixels e)) (cells p)))) = Inr uc" and
    r: "emit_layers (gen_env_of ext p uc) True (usedlayers p) (layerid p)
          ((replicate ?n 0, 0), []) = Inr r" and
    ga: "g_animdata g = Some (fst (fst r))"
    by auto
  let ?env = "gen_env_of ext p uc"
  have len: "length (layerid p) = length (usedlayers p)" by (simp add: length_usedlayers)
  from emit_layers_defined [OF r len]
  have def: "\<forall>i \<in> set (layerid p). \<forall>c < length (cells p).
               layeridx (cells p ! c) = i \<longrightarrow> record_of ?env c \<noteq> None"
    by (simp add: gen_env_sel)
  have st: "\<And>i. i \<in> set (layerid p) \<Longrightarrow>
              layer_stream ?env (Some i) [0..<length (e_cells ?env)] =
              map word_of_int (concat (map (\<lambda>e. anim_record ext p (frame_cel e i)) (frames p)))"
  proof -
    fix i assume i: "i \<in> set (layerid p)"
    with def have "\<forall>c < length (cells p). layeridx (cells p ! c) = i \<longrightarrow>
                     record_of ?env c \<noteq> None" by blast
    from layer_stream_gen [OF uc this] filter_cells [OF i one]
    show "layer_stream ?env (Some i) [0..<length (e_cells ?env)] =
              map word_of_int (concat (map (\<lambda>e. anim_record ext p (frame_cel e i)) (frames p)))"
      by (simp add: comp_def gen_env_sel)
  qed
  let ?ws = "concat (map (\<lambda>i. layer_stream ?env (Some i) [0..<length (e_cells ?env)]) (layerid p))"
  let ?spec = "map word_of_int
             (concat (map (\<lambda>i. concat (map (\<lambda>e. anim_record ext p (frame_cel e i)) (frames p)))
                       (layerid p))) :: 16 word list"
  have ws: "?ws = ?spec"
  proof -
    have "?ws = concat (map (\<lambda>i. map word_of_int
                  (concat (map (\<lambda>e. anim_record ext p (frame_cel e i)) (frames p)))) (layerid p))"
      using st by (intro arg_cong [where f = concat] map_cong refl) simp
    then show ?thesis by (simp add: map_concat comp_def)
  qed
  have per_layer: "\<And>i. length (concat (map (\<lambda>e. anim_record ext p (frame_cel e i)) (frames p))) =
                        6 * length (frames p)"
    by (rule length_concat_const) (simp add: length_anim_record)
  have "length (concat (map (\<lambda>i. concat (map (\<lambda>e. anim_record ext p (frame_cel e i)) (frames p)))
                       (layerid p))) = (6 * length (frames p)) * length (layerid p)"
    by (rule length_concat_const) (simp add: per_layer)
  then have lspec: "length ?spec = ?n"
    by (simp add: fc len)
  from emit_layers_stream [OF r len, of ?n "[]"] arr_inv_init [of ?n]
  have "arr_inv ?n (fst r) ?ws" by simp
  with ws have "arr_inv ?n (fst r) ?spec" by simp
  from arr_inv_full [OF this lspec] have arr: "fst (fst r) = ?spec" .
  have 1: "g_animdata g = Some ?spec" using ga arr by simp
  have 2: "length (the (g_animdata g)) = ?n" using 1 lspec by simp
  have 3: "\<forall>i \<in> set (layerid p). \<forall>e \<in> set (frames p).
            width (frame_cel e i) \<noteq> 0 \<longrightarrow>
            atlas ext p (representative ext p (frame_cel e i)) \<noteq> None"
  proof (intro ballI impI)
    fix i e
    assume i: "i \<in> set (layerid p)" and e: "e \<in> set (frames p)"
      and w: "width (frame_cel e i) \<noteq> 0"
    from frame_cel_in_cells [OF i one e] obtain c where
      c: "c < length (cells p)" "cells p ! c = frame_cel e i" "layeridx (cells p ! c) = i"
      by blast
    with def i have "record_of ?env c \<noteq> None" by blast
    from record_of_gen(2) [OF uc c(1) this] w c(2)
    show "atlas ext p (representative ext p (frame_cel e i)) \<noteq> None" by simp
  qed
  from 1 2 fc 3 show ?thesis by blast
qed

subsection \<open>Examples for the animation record array\<close>

lemmas chunk_eval =
  parseLayer_def parseUserData_def parseCel_def parseTagsChunk_def parseColorProfile_def
  readPstring_def ext0_def as_cel_def example_layer_def example_cel_def

lemma parseFrames_numeral:
  "parseFrames ext buffer (numeral k) ptr fs seen =
     bnd (frameParser (subarray buffer (int ptr) (int ptr + 16))) (\<lambda>frame.
     bnd (parseChunks ext buffer fs
            (if chunk_count frame = 0 then chunk_count_old frame else chunk_count frame)
            \<lparr> st_ptr = ptr + 16, st_chunks = [], st_pchunk = None, st_seentypes = seen \<rparr>)
       (\<lambda>st.
         parseFrames ext buffer (pred_numeral k) (st_ptr st)
           (fs @ [\<lparr> duration = frame_duration frame, chunks = st_chunks st \<rparr>])
           (st_seentypes st)))"
  by (simp add: numeral_eq_Suc)

lemma duplicate_cel_parse:
  "\<exists>h. parseFile ext0 duplicate_cel_file =
         Inr \<lparr> header = h, frames = duplicate_cel_frames, types = [] \<rparr> \<and> frame_count h = 1"
  by (simp add: duplicate_cel_file_def duplicate_cel_frames_def file_eval chunk_eval)

lemmas reduce_eval =
  generate_eval emit_cel_def store_def computeFlags_def trim_def is_space_def js_def
  object_prototype_keys_def upt_conv_Cons empty_cel_def

lemma duplicate_cel_generate:
  "frame_count h = 1 \<Longrightarrow>
   \<exists>g. generate ext0 True \<lparr> header = h, frames = duplicate_cel_frames, types = [] \<rparr> = Inr g \<and>
       g_animdata g = Some [1, 1, 1, 1, 0, 0, 2, 2, 1, 1, 1, 0]"
  apply (simp add: duplicate_cel_frames_def reduce_eval chunk_eval)
  apply (simp add: numeral_eq_Suc)
  done

lemmas spec_eval =
  atlas_def representative_def first_index_def frame_cel_def anim_record_def

text \<open>With two cel chunks on layer 0 in one frame, the six values that follow the first record
  are those of the second cel of layer 0, and the record of layer 1 is lost.\<close>

theorem animation_records_duplicate_counterexample:
  "\<exists>g p. parseFile ext0 duplicate_cel_file = Inr p \<and>
          doGeneration ext0 duplicate_cel_file True = Inr g \<and>
          layerid p = [0, 1] \<and> length (frames p) = 1 \<and>
          g_animdata g = Some [1, 1, 1, 1, 0, 0, 2, 2, 1, 1, 1, 0] \<and>
          map word_of_int (anim_record ext0 p (frame_cel (frames p ! 0) 1)) =
            [3, 3, 1, 1, 2, 0 :: 16 word] \<and>
          g_animdata g \<noteq>
            Some (map word_of_int
              (concat (map (\<lambda>i. concat (map (\<lambda>e. anim_record ext0 p (frame_cel e i)) (frames p)))
                        (layerid p))))"
proof -
  from duplicate_cel_parse obtain h where
    p: "parseFile ext0 duplicate_cel_file =
          Inr \<lparr> header = h, frames = duplicate_cel_frames, types = [] \<rparr>" and
    fc: "frame_count h = 1"
    by blast
  let ?p = "\<lparr> header = h, frames = duplicate_cel_frames, types = [] \<rparr>"
  from duplicate_cel_generate [OF fc] obtain g where
    g: "generate ext0 True ?p = Inr g" and
    a: "g_animdata g = Some [1, 1, 1, 1, 0, 0, 2, 2, 1, 1, 1, 0]"
    by blast
  have d: "doGeneration ext0 duplicate_cel_file True = Inr g"
    by (simp add: doGeneration_def p g)
  have l: "layerid ?p = [0, 1]"
    by (simp add: duplicate_cel_frames_def reduce_eval chunk_eval)
  have n: "length (frames ?p) = 1"
    by (simp add: duplicate_cel_frames_def)
  have r: "map word_of_int (anim_record ext0 ?p (frame_cel (frames ?p ! 0) 1)) =
            [3, 3, 1, 1, 2, 0 :: 16 word]"
    by (simp add: duplicate_cel_frames_def reduce_eval chunk_eval spec_eval)
  have s: "map word_of_int
              (concat (map (\<lambda>i. concat (map (\<lambda>e. anim_record ext0 ?p (frame_cel e i)) (frames ?p)))
                        (layerid ?p))) = [1, 1, 1, 1, 0, 0, 3, 3, 1, 1, 2, 0 :: 16 word]"
    unfolding l by (simp add: duplicate_cel_frames_def reduce_eval chunk_eval spec_eval)
  have ne: "g_animdata g \<noteq>
            Some (map word_of_int
              (concat (map (\<lambda>i. concat (map (\<lambda>e. anim_record ext0 ?p (frame_cel e i)) (frames ?p)))
                        (layerid ?p))))"
    unfolding s a by simp
  show ?thesis
    by (intro exI [of _ g] exI [of _ ?p] conjI) (fact p d l n a r ne)+
qed

lemma two_layers_parse:
  "\<exists>h. parseFile ext0 two_layers_file =
         Inr \<lparr> header = h, frames = two_layers_frames, types = [] \<rparr> \<and> frame_count h = 2"
  by (simp add: two_layers_file_def two_layers_frames_def file_eval parseFrames_numeral chunk_eval)

lemma two_layers_generate:
  "frame_count h = 2 \<Longrightarrow>
   generate ext0 True \<lparr> header = h, frames = two_layers_frames, types = [] \<rparr> =
     Inr \<lparr> extent = (h_width h, h_height h), g_frame_count = 2, anims = Map.empty,
           g_flags = [([97], 0), ([98], 1), ([32, 98, 32], 2), ([99], 3)],
           layers_props = [3, 10],
           frame_durations = [100, 100],
           g_animdata = Some [1, 1, 1, 1, 0, 0, 1, 1, 1, 1, 0, 0,
                              4, 5, 1, 0, 1, 0, 0, 0, 0, 0, 0, 0] \<rparr>"
  apply (simp add: two_layers_frames_def reduce_eval chunk_eval)
  apply (simp add: numeral_eq_Suc)
  done

lemma two_layers_one_cel:
  "one_cel_per_layer \<lparr> header = h, frames = two_layers_frames, types = [] \<rparr>"
  by (simp add: one_cel_per_layer_def two_layers_frames_def List.map_filter_def chunk_eval)

lemma two_layers_layerid:
  "layerid \<lparr> header = h, frames = two_layers_frames, types = [] \<rparr> = [0, 2]"
  by (simp add: two_layers_frames_def reduce_eval chunk_eval)

text \<open>The two used layers of \<open>two_layers_file\<close> get two records each: those of layer 0
  first, then those of layer 2, whose cel in frame 1 is the placeholder.\<close>

theorem animation_records_layer_major_witness:
  "\<exists>g p. parseFile ext0 two_layers_file = Inr p \<and>
          doGeneration ext0 two_layers_file True = Inr g \<and>
          one_cel_per_layer p \<and>
          layerid p = [0, 2] \<and> frame_count (header p) = 2 \<and>
          g_animdata g = Some [1, 1, 1, 1, 0, 0, 1, 1, 1, 1, 0, 0,
                               4, 5, 1, 0, 1, 0, 0, 0, 0, 0, 0, 0] \<and>
          map word_of_int
            (concat (map (\<lambda>i. concat (map (\<lambda>e. anim_record ext0 p (frame_cel e i)) (frames p)))
                      (layerid p))) =
            [1, 1, 1, 1, 0, 0, 1, 1, 1, 1, 0, 0, 4, 5, 1, 0, 1, 0, 0, 0, 0, 0, 0, 0 :: 16 word] \<and>
          6 * length (usedlayers p) * frame_count (header p) = 24"
proof -
  from two_layers_parse obtain h where
    p: "parseFile ext0 two_layers_file =
          Inr \<lparr> header = h, frames = two_layers_frames, types = [] \<rparr>" and
    fc: "frame_count h = 2"
    by blast
  let ?p = "\<lparr> header = h, frames = two_layers_frames, types = [] \<rparr>"
  let ?arr = "[1, 1, 1, 1, 0, 0, 1, 1, 1, 1, 0, 0, 4, 5, 1, 0, 1, 0, 0, 0, 0, 0, 0, 0 :: 16 word]"
  from two_layers_generate [OF fc] obtain g where
    g: "generate ext0 True ?p = Inr g" and a: "g_animdata g = Some ?arr"
    by simp
  have d: "doGeneration ext0 two_layers_file True = Inr g"
    by (simp add: doGeneration_def p g)
  have fc': "frame_count (header ?p) = 2" using fc by simp
  from animation_records_layer_major [OF p d two_layers_one_cel] have
    s: "g_animdata g =
           Some (map word_of_int
             (concat (map (\<lambda>i. concat (map (\<lambda>e. anim_record ext0 ?p (frame_cel e i)) (frames ?p)))
                       (layerid ?p))))" and
    n: "length (the (g_animdata g)) = 6 * length (usedlayers ?p) * frame_count (header ?p)"
    by blast+
  from s a have s': "map word_of_int
             (concat (map (\<lambda>i. concat (map (\<lambda>e. anim_record ext0 ?p (frame_cel e i)) (frames ?p)))
                       (layerid ?p))) = ?arr"
    by simp
  from a have la: "length (the (g_animdata g)) = 24" by simp
  from n [unfolded la] have n': "6 * length (usedlayers ?p) * frame_count (header ?p) = 24"
    by (rule sym)
  show ?thesis
    by (intro exI [of _ g] exI [of _ ?p] conjI)
       (fact p d two_layers_one_cel two_layers_layerid fc' a s' n')+
qed

subsection \<open>Empty cels\<close>

lemma uniquecells_filter:
  "uniquecells ls cs ad = Inr uc \<Longrightarrow>
   uc = filter (\<lambda>c. width (cs ! c) \<noteq> 0 \<and> userdata (ls ! layeridx (cs ! c)) \<noteq> []) ad"
proof (induction ad arbitrary: uc)
  case Nil
  then show ?case by simp
next
  case (Cons c rest)
  then show ?case
    by (auto simp: bnd_Inr_iff split: if_splits)
qed

lemma uniquecells_height:
  "\<forall>i \<in> set ad. i < length cs \<Longrightarrow>
   uniquecells ls (map (\<lambda>k. k \<lparr> height := hf k \<rparr>) cs) ad = uniquecells ls cs ad"
  by (induction ad) simp_all

lemma w16_nonzero: "0 < n \<Longrightarrow> n < 65536 \<Longrightarrow> (word_of_int (int n) :: 16 word) \<noteq> 0"
proof -
  assume a: "0 < n" "n < 65536"
  have "(word_of_nat n :: 16 word) = 0 \<longleftrightarrow> 2 ^ LENGTH(16) dvd n"
    by (rule word_of_nat_eq_0_iff)
  moreover have "\<not> (2 ^ LENGTH(16) dvd n)"
    using a by (auto dest: dvd_imp_le)
  ultimately show ?thesis by simp
qed

lemma added_dedup_less: "\<forall>i \<in> set (added (dedup crcs)). i < length crcs"
  by (simp add: added_dedup)

text \<open>
  C9. In a generation that succeeds, the cels submitted to the packer are the representatives
  with a nonzero width on a layer that carries user data, whatever their height: the selection
  is the same for any other heights. For a cel of a used layer the record written is six zeros
  when its width is 0, and otherwise x, y, width, height and the origin of its representative,
  which is not six zeros for a 16-bit width.
\<close>

theorem width_decides_emptiness:
  assumes "generate ext True p = Inr g"
  shows "\<exists>uc. uniquecells (layers p) (cells p)
                (added (dedup (map (\<lambda>e. crc ext (pixels e)) (cells p)))) = Inr uc \<and>
              uc = filter (\<lambda>c. width (cells p ! c) \<noteq> 0 \<and>
                               userdata (layers p ! layeridx (cells p ! c)) \<noteq> [])
                     (added (dedup (map (\<lambda>e. crc ext (pixels e)) (cells p)))) \<and>
              uniquecells (layers p) (map (\<lambda>k. k \<lparr> height := hf k \<rparr>) (cells p))
                (added (dedup (map (\<lambda>e. crc ext (pixels e)) (cells p)))) = Inr uc \<and>
              (\<forall>c < length (cells p). layeridx (cells p ! c) \<in> set (layerid p) \<longrightarrow>
                 (width (cells p ! c) = 0 \<longrightarrow>
                    record_of (gen_env_of ext p uc) c = Some [0, 0, 0, 0, 0, 0]) \<and>
                 (width (cells p ! c) \<noteq> 0 \<longrightarrow>
                    (\<exists>zone. atlas ext p (representative ext p (cells p ! c)) = Some zone \<and>
                       record_of (gen_env_of ext p uc) c =
                         Some [cel_x (cells p ! c), cel_y (cells p ! c),
                               int (width (cells p ! c)), int (height (cells p ! c)),
                               fst zone, snd zone])) \<and>
                 (0 < width (cells p ! c) \<and> width (cells p ! c) < 65536 \<longrightarrow>
                    map word_of_int (the (record_of (gen_env_of ext p uc) c)) \<noteq>
                      (replicate 6 0 :: 16 word list)))"
proof -
  let ?ad = "added (dedup (map (\<lambda>e. crc ext (pixels e)) (cells p)))"
  let ?n = "6 * length (usedlayers p) * frame_count (header p)"
  from generate_Inr [OF assms] obtain uc r where
    uc: "uniquecells (layers p) (cells p) ?ad = Inr uc" and
    r: "emit_layers (gen_env_of ext p uc) True (usedlayers p) (layerid p)
          ((replicate ?n 0, 0), []) = Inr r"
    by auto
  let ?env = "gen_env_of ext p uc"
  have len: "length (layerid p) = length (usedlayers p)" by (simp add: length_usedlayers)
  from emit_layers_defined [OF r len]
  have def: "\<forall>i \<in> set (layerid p). \<forall>c < length (cells p).
               layeridx (cells p ! c) = i \<longrightarrow> record_of ?env c \<noteq> None"
    by (simp add: gen_env_sel)
  have 1: "uc = filter (\<lambda>c. width (cells p ! c) \<noteq> 0 \<and>
                               userdata (layers p ! layeridx (cells p ! c)) \<noteq> []) ?ad"
    by (rule uniquecells_filter [OF uc])
  have "\<forall>i \<in> set ?ad. i < length (cells p)"
    using added_dedup_less [of "map (\<lambda>e. crc ext (pixels e)) (cells p)"] by simp
  from uniquecells_height [OF this, of "layers p" hf] uc
  have 2: "uniquecells (layers p) (map (\<lambda>k. k \<lparr> height := hf k \<rparr>) (cells p)) ?ad = Inr uc"
    by simp
  have 3: "\<forall>c < length (cells p). layeridx (cells p ! c) \<in> set (layerid p) \<longrightarrow>
                 (width (cells p ! c) = 0 \<longrightarrow>
                    record_of ?env c = Some [0, 0, 0, 0, 0, 0]) \<and>
                 (width (cells p ! c) \<noteq> 0 \<longrightarrow>
                    (\<exists>zone. atlas ext p (representative ext p (cells p ! c)) = Some zone \<and>
                       record_of ?env c =
                         Some [cel_x (cells p ! c), cel_y (cells p ! c),
                               int (width (cells p ! c)), int (height (cells p ! c)),
                               fst zone, snd zone])) \<and>
                 (0 < width (cells p ! c) \<and> width (cells p ! c) < 65536 \<longrightarrow>
                    map word_of_int (the (record_of ?env c)) \<noteq>
                      (replicate 6 0 :: 16 word list))"
  proof (intro allI impI)
    fix c
    assume c: "c < length (cells p)" and l: "layeridx (cells p ! c) \<in> set (layerid p)"
    with def have d: "record_of ?env c \<noteq> None" by blast
    from record_of_gen(1) [OF uc c d]
    have ro: "record_of ?env c = Some (anim_record ext p (cells p ! c))" .
    have a: "width (cells p ! c) = 0 \<longrightarrow> record_of ?env c = Some [0, 0, 0, 0, 0, 0]"
      using ro by (simp add: anim_record_def)
    have b: "width (cells p ! c) \<noteq> 0 \<longrightarrow>
                    (\<exists>zone. atlas ext p (representative ext p (cells p ! c)) = Some zone \<and>
                       record_of ?env c =
                         Some [cel_x (cells p ! c), cel_y (cells p ! c),
                               int (width (cells p ! c)), int (height (cells p ! c)),
                               fst zone, snd zone])"
    proof
      assume w: "width (cells p ! c) \<noteq> 0"
      from record_of_gen(2) [OF uc c d w] obtain zone where
        z: "atlas ext p (representative ext p (cells p ! c)) = Some zone" by auto
      with ro w show "\<exists>zone. atlas ext p (representative ext p (cells p ! c)) = Some zone \<and>
                       record_of ?env c =
                         Some [cel_x (cells p ! c), cel_y (cells p ! c),
                               int (width (cells p ! c)), int (height (cells p ! c)),
                               fst zone, snd zone]"
        by (simp add: anim_record_def)
    qed
    have e: "0 < width (cells p ! c) \<and> width (cells p ! c) < 65536 \<longrightarrow>
                    map word_of_int (the (record_of ?env c)) \<noteq> (replicate 6 0 :: 16 word list)"
    proof
      assume w: "0 < width (cells p ! c) \<and> width (cells p ! c) < 65536"
      then have nz: "(word_of_int (int (width (cells p ! c))) :: 16 word) \<noteq> 0"
        by (intro w16_nonzero) simp_all
      have six: "replicate 6 (0 :: 16 word) = [0, 0, 0, 0, 0, 0]"
        by (simp add: numeral_eq_Suc)
      from w ro have "the (record_of ?env c) =
          [cel_x (cells p ! c), cel_y (cells p ! c), int (width (cells p ! c)),
           int (height (cells p ! c)),
           fst (the (atlas ext p (representative ext p (cells p ! c)))),
           snd (the (atlas ext p (representative ext p (cells p ! c))))]"
        by (simp add: anim_record_def)
      with nz show "map word_of_int (the (record_of ?env c)) \<noteq> (replicate 6 0 :: 16 word list)"
        unfolding six by simp
    qed
    from a b e show "(width (cells p ! c) = 0 \<longrightarrow>
                    record_of ?env c = Some [0, 0, 0, 0, 0, 0]) \<and>
                 (width (cells p ! c) \<noteq> 0 \<longrightarrow>
                    (\<exists>zone. atlas ext p (representative ext p (cells p ! c)) = Some zone \<and>
                       record_of ?env c =
                         Some [cel_x (cells p ! c), cel_y (cells p ! c),
                               int (width (cells p ! c)), int (height (cells p ! c)),
                               fst zone, snd zone])) \<and>
                 (0 < width (cells p ! c) \<and> width (cells p ! c) < 65536 \<longrightarrow>
                    map word_of_int (the (record_of ?env c)) \<noteq>
                      (replicate 6 0 :: 16 word list))"
      by blast
  qed
  from uc 1 2 3 show ?thesis by blast
qed

lemma two_layers_cells:
  "cells \<lparr> header = h, frames = two_layers_frames, types = [] \<rparr> =
     [example_cel 0 1 1 1 1 [1, 0, 0, 0], example_cel 1 7 7 1 1 [9, 0, 0, 0],
      example_cel 2 4 5 1 0 [],
      (example_cel 0 1 1 1 1 [1, 0, 0, 0]) \<lparr> celtype := 1 \<rparr>,
      (example_cel 1 7 7 1 1 [9, 0, 0, 0]) \<lparr> celtype := 1 \<rparr>,
      empty_cel 2]"
  by (simp add: two_layers_frames_def reduce_eval chunk_eval)

lemma two_layers_added:
  "added (dedup (map (\<lambda>e. crc ext0 (pixels e))
     (cells \<lparr> header = h, frames = two_layers_frames, types = [] \<rparr>))) = [0, 1, 2]"
  unfolding two_layers_cells by (simp add: reduce_eval chunk_eval)

lemma two_layers_layers:
  "layers \<lparr> header = h, frames = two_layers_frames, types = [] \<rparr> =
     [example_layer [65] [\<lparr> ud_text = Some [97, 38, 98], ud_color = None \<rparr>],
      example_layer [85] [],
      example_layer [66] [\<lparr> ud_text = Some [32, 98, 32, 38, 99], ud_color = None \<rparr>]]"
  by (simp add: two_layers_frames_def reduce_eval chunk_eval)

text \<open>In \<open>two_layers_file\<close> the cel of layer 2 in frame 0 has width 1 and height 0: it is
  packed and its record is not the empty one; the placeholder of layer 2 in frame 1 gets six
  zeros; the cel of the unused layer 1 is not packed.\<close>

theorem width_decides_emptiness_witness:
  "\<exists>g p uc. parseFile ext0 two_layers_file = Inr p \<and>
             generate ext0 True p = Inr g \<and>
             uniquecells (layers p) (cells p)
               (added (dedup (map (\<lambda>e. crc ext0 (pixels e)) (cells p)))) = Inr uc \<and>
             uc = [0, 2] \<and>
             width (cells p ! 2) = 1 \<and> height (cells p ! 2) = 0 \<and>
             record_of (gen_env_of ext0 p uc) 2 = Some [4, 5, 1, 0, 1, 0] \<and>
             width (cells p ! 5) = 0 \<and>
             record_of (gen_env_of ext0 p uc) 5 = Some [0, 0, 0, 0, 0, 0]"
proof -
  from two_layers_parse obtain h where
    p: "parseFile ext0 two_layers_file =
          Inr \<lparr> header = h, frames = two_layers_frames, types = [] \<rparr>" and
    fc: "frame_count h = 2"
    by blast
  let ?p = "\<lparr> header = h, frames = two_layers_frames, types = [] \<rparr>"
  from two_layers_generate [OF fc] obtain g where g: "generate ext0 True ?p = Inr g"
    by simp
  from width_decides_emptiness [OF g] obtain uc where
    uc: "uniquecells (layers ?p) (cells ?p)
           (added (dedup (map (\<lambda>e. crc ext0 (pixels e)) (cells ?p)))) = Inr uc" and
    f: "uc = filter (\<lambda>c. width (cells ?p ! c) \<noteq> 0 \<and>
                          userdata (layers ?p ! layeridx (cells ?p ! c)) \<noteq> [])
                (added (dedup (map (\<lambda>e. crc ext0 (pixels e)) (cells ?p))))" and
    rec: "\<forall>c < length (cells ?p). layeridx (cells ?p ! c) \<in> set (layerid ?p) \<longrightarrow>
                 (width (cells ?p ! c) = 0 \<longrightarrow>
                    record_of (gen_env_of ext0 ?p uc) c = Some [0, 0, 0, 0, 0, 0]) \<and>
                 (width (cells ?p ! c) \<noteq> 0 \<longrightarrow>
                    (\<exists>zone. atlas ext0 ?p (representative ext0 ?p (cells ?p ! c)) = Some zone \<and>
                       record_of (gen_env_of ext0 ?p uc) c =
                         Some [cel_x (cells ?p ! c), cel_y (cells ?p ! c),
                               int (width (cells ?p ! c)), int (height (cells ?p ! c)),
                               fst zone, snd zone]))"
    by blast
  have u2: "uc = [0, 2]"
    unfolding f two_layers_added by (simp add: two_layers_cells two_layers_layers chunk_eval)
  have w2: "width (cells ?p ! 2) = 1" "height (cells ?p ! 2) = 0"
    "cel_x (cells ?p ! 2) = 4" "cel_y (cells ?p ! 2) = 5" "layeridx (cells ?p ! 2) = 2"
    by (simp_all add: two_layers_cells chunk_eval)
  have w5: "width (cells ?p ! 5) = 0" "layeridx (cells ?p ! 5) = 2"
    by (simp_all add: two_layers_cells empty_cel_def)
  have n: "length (cells ?p) = 6" by (simp add: two_layers_cells)
  have c2: "2 < length (cells ?p)" and c5: "5 < length (cells ?p)"
    unfolding n by simp_all
  have l2: "layeridx (cells ?p ! 2) \<in> set (layerid ?p)"
    and l5: "layeridx (cells ?p ! 5) \<in> set (layerid ?p)"
    unfolding w2 w5 two_layers_layerid by simp_all
  have nz: "width (cells ?p ! 2) \<noteq> 0" unfolding w2 by simp
  from rec [rule_format, OF c2 l2, THEN conjunct2, rule_format, OF nz] obtain zone where
    z: "atlas ext0 ?p (representative ext0 ?p (cells ?p ! 2)) = Some zone" and
    r2: "record_of (gen_env_of ext0 ?p uc) 2 =
           Some [cel_x (cells ?p ! 2), cel_y (cells ?p ! 2), int (width (cells ?p ! 2)),
                 int (height (cells ?p ! 2)), fst zone, snd zone]"
    by blast
  have "atlas ext0 ?p (representative ext0 ?p (cells ?p ! 2)) = Some (1, 0)"
    unfolding atlas_def uc u2 representative_def
    by (simp add: two_layers_cells first_index_def celtoitem_def ext0_def example_cel_def)
  with z have "zone = (1, 0)" by simp
  with r2 have r2': "record_of (gen_env_of ext0 ?p uc) 2 = Some [4, 5, 1, 0, 1, 0]"
    unfolding w2 by simp
  from rec [rule_format, OF c5 l5, THEN conjunct1, rule_format, OF w5(1)] have
    r5: "record_of (gen_env_of ext0 ?p uc) 5 = Some [0, 0, 0, 0, 0, 0]" .
  show ?thesis
    by (intro exI [of _ g] exI [of _ ?p] exI [of _ uc] conjI)
       (fact p g uc u2 w2(1) w2(2) r2' w5(1) r5)+
qed

subsection \<open>Used layers\<close>

lemma chunk_type_Layer: "chunk_type c = 0x2004 \<longleftrightarrow> (\<exists>d. data c = Layer d)"
  by (auto simp: chunk_type_def split: AseChunkData.splits)

lemma layers_all_frames:
  "layers p = concat (map (\<lambda>e. filter (\<lambda>c. \<exists>d. data c = Layer d) (chunks e)) (frames p))"
  by (simp add: layers_def chunk_type_Layer)

lemma uniquecells_used:
  "uniquecells ls cs ad = Inr uc \<Longrightarrow>
   \<forall>c \<in> set uc. layeridx (cs ! c) < length ls \<and> userdata (ls ! layeridx (cs ! c)) \<noteq> []"
proof (induction ad arbitrary: uc)
  case Nil
  then show ?case by simp
next
  case (Cons c rest)
  then show ?case
    by (auto simp: bnd_Inr_iff split: if_splits)
qed

lemma layerid_iff: "i \<in> set (layerid p) \<longleftrightarrow> i < length (layers p) \<and> userdata (layers p ! i) \<noteq> []"
  by (auto simp: layerid_def)

lemma arr_inv_fst: "arr_inv n ap ws \<Longrightarrow> fst ap = take n (ws @ replicate n 0)"
  by (simp add: arr_inv_def)

text \<open>
  C4, as the code has it. The layers are the Layer chunks of all frames, in decode order, and the
  used layers are those that carry user data. In a generation that succeeds \<open>layers_props\<close>
  has one entry for every used layer, in order, and none for any other layer; every cel submitted
  to the packer lies on a used layer; and the animation array holds, for the used layers in
  order, the records of the cels with the index of that layer, in the order of \<open>cells\<close>
  (cut or padded with zeros to the length of the array), so that a layer without user data
  contributes no record, whatever cels it has.
\<close>

theorem used_layers_only:
  assumes "generate ext animdata p = Inr g"
  shows "layers p = concat (map (\<lambda>e. filter (\<lambda>c. \<exists>d. data c = Layer d) (chunks e)) (frames p)) \<and>
         (\<forall>i. i \<in> set (layerid p) \<longleftrightarrow> i < length (layers p) \<and> userdata (layers p ! i) \<noteq> []) \<and>
         list_all2 (\<lambda>m i. layer_flags (g_flags g) (layers p ! i) = Inr m)
           (layers_props g) (layerid p) \<and>
         (\<exists>uc. uniquecells (layers p) (cells p)
                  (added (dedup (map (\<lambda>e. crc ext (pixels e)) (cells p)))) = Inr uc \<and>
               (\<forall>c \<in> set uc. layeridx (cells p ! c) \<in> set (layerid p)) \<and>
               (animdata \<longrightarrow>
                  g_animdata g =
                    Some (take (6 * length (layerid p) * frame_count (header p))
                      (concat (map (\<lambda>i. layer_stream (gen_env_of ext p uc) (Some i)
                                          [0..<length (cells p)]) (layerid p)) @
                       replicate (6 * length (layerid p) * frame_count (header p)) 0))))"
proof -
  let ?n = "6 * length (usedlayers p) * frame_count (header p)"
  from generate_Inr [OF assms] obtain uc r where
    uc: "uniquecells (layers p) (cells p)
           (added (dedup (map (\<lambda>e. crc ext (pixels e)) (cells p)))) = Inr uc" and
    r: "emit_layers (gen_env_of ext p uc) animdata (usedlayers p) (layerid p)
          ((replicate ?n 0, 0), []) = Inr r" and
    gf: "g_flags g = flags_of (animflags (usedlayers p))" and
    lp: "layers_props g = snd r" and
    ga: "g_animdata g = (if animdata then Some (fst (fst r)) else None)"
    by auto
  let ?env = "gen_env_of ext p uc"
  have len: "length (layerid p) = length (usedlayers p)" by (simp add: length_usedlayers)
  from emit_layers_flags [OF r len] have
    "list_all2 (\<lambda>m l. layer_flags (e_flags ?env) l = Inr m) (snd r) (usedlayers p)"
    by simp
  then have 3: "list_all2 (\<lambda>m i. layer_flags (g_flags g) (layers p ! i) = Inr m)
           (layers_props g) (layerid p)"
    by (simp add: usedlayers_layerid list_all2_map2 gen_env_sel gf lp)
  from uniquecells_used [OF uc]
  have 4: "\<forall>c \<in> set uc. layeridx (cells p ! c) \<in> set (layerid p)"
    by (simp add: layerid_iff)
  have 5: "animdata \<longrightarrow>
                  g_animdata g =
                    Some (take (6 * length (layerid p) * frame_count (header p))
                      (concat (map (\<lambda>i. layer_stream ?env (Some i)
                                          [0..<length (cells p)]) (layerid p)) @
                       replicate (6 * length (layerid p) * frame_count (header p)) 0))"
  proof
    assume a: animdata
    with r have r': "emit_layers ?env True (usedlayers p) (layerid p)
          ((replicate ?n 0, 0), []) = Inr r" by simp
    from emit_layers_stream [OF r' len, of ?n "[]"] arr_inv_init [of ?n]
    have "arr_inv ?n (fst r)
            (concat (map (\<lambda>i. layer_stream ?env (Some i) [0..<length (cells p)]) (layerid p)))"
      by (simp add: gen_env_sel)
    from arr_inv_fst [OF this] a ga len
    show "g_animdata g =
                    Some (take (6 * length (layerid p) * frame_count (header p))
                      (concat (map (\<lambda>i. layer_stream ?env (Some i)
                                          [0..<length (cells p)]) (layerid p)) @
                       replicate (6 * length (layerid p) * frame_count (header p)) 0))"
      by simp
  qed
  from layers_all_frames [of p] layerid_iff [of _ p] 3 uc 4 5 show ?thesis by blast
qed

lemma late_layer_parse:
  "\<exists>h. parseFile ext0 late_layer_file =
         Inr \<lparr> header = h, frames = late_layer_frames, types = [] \<rparr> \<and> frame_count h = 2"
  by (simp add: late_layer_file_def late_layer_frames_def file_eval parseFrames_numeral chunk_eval)

lemma late_layer_generate:
  "\<exists>g. generate ext0 False \<lparr> header = h, frames = late_layer_frames, types = [] \<rparr> = Inr g \<and>
       layers_props g = [1]"
  by (simp add: late_layer_frames_def reduce_eval chunk_eval)

text \<open>A layer declared in frame 1 is enumerated and, carrying user data, gets its entry in
  \<open>layers_props\<close>, although frame 0 declares no layer.\<close>

theorem layers_frame0_counterexample:
  "\<exists>g p. parseFile ext0 late_layer_file = Inr p \<and>
          doGeneration ext0 late_layer_file False = Inr g \<and>
          layers_frame0 p = [] \<and> length (layers p) = 1 \<and> layers_props g = [1]"
proof -
  from late_layer_parse obtain h where
    p: "parseFile ext0 late_layer_file =
          Inr \<lparr> header = h, frames = late_layer_frames, types = [] \<rparr>"
    by blast
  let ?p = "\<lparr> header = h, frames = late_layer_frames, types = [] \<rparr>"
  from late_layer_generate [of h] obtain g where
    g: "generate ext0 False ?p = Inr g" and l: "layers_props g = [1]"
    by blast
  have d: "doGeneration ext0 late_layer_file False = Inr g"
    by (simp add: doGeneration_def p g)
  have f0: "layers_frame0 ?p = []"
    by (simp add: layers_frame0_def late_layer_frames_def chunk_type_def)
  have n: "length (layers ?p) = 1"
    by (simp add: layers_def late_layer_frames_def chunk_type_def example_layer_def)
  show ?thesis
    by (intro exI [of _ g] exI [of _ ?p] conjI) (fact p d f0 n l)+
qed

text \<open>In \<open>two_layers_file\<close> the layer \<open>U\<close> has no user data and a cel in both frames:
  \<open>layers_props\<close> has the two entries of the layers 0 and 2, and only cels of these layers
  are packed.\<close>

theorem used_layers_only_witness:
  "\<exists>g p uc. parseFile ext0 two_layers_file = Inr p \<and>
             generate ext0 True p = Inr g \<and>
             length (layers p) = 3 \<and> layerid p = [0, 2] \<and> layers_props g = [3, 10] \<and>
             layer_flags (g_flags g) (layers p ! 0) = Inr 3 \<and>
             layer_flags (g_flags g) (layers p ! 2) = Inr 10 \<and>
             uniquecells (layers p) (cells p)
               (added (dedup (map (\<lambda>e. crc ext0 (pixels e)) (cells p)))) = Inr uc \<and>
             set (map (\<lambda>c. layeridx (cells p ! c)) uc) \<subseteq> {0, 2} \<and>
             g_animdata g =
               Some (take 24
                 (concat (map (\<lambda>i. layer_stream (gen_env_of ext0 p uc) (Some i)
                                     [0..<length (cells p)]) [0, 2]) @ replicate 24 0))"
proof -
  from two_layers_parse obtain h where
    p: "parseFile ext0 two_layers_file =
          Inr \<lparr> header = h, frames = two_layers_frames, types = [] \<rparr>" and
    fc: "frame_count h = 2"
    by blast
  let ?p = "\<lparr> header = h, frames = two_layers_frames, types = [] \<rparr>"
  from two_layers_generate [OF fc] obtain g where
    g: "generate ext0 True ?p = Inr g" and lp: "layers_props g = [3, 10]"
    by simp
  have li: "layerid ?p = [0, 2]" by (rule two_layers_layerid)
  have n: "length (layers ?p) = 3" by (simp add: two_layers_layers)
  from used_layers_only [OF g] obtain uc where
    fl: "list_all2 (\<lambda>m i. layer_flags (g_flags g) (layers ?p ! i) = Inr m)
           (layers_props g) (layerid ?p)" and
    uc: "uniquecells (layers ?p) (cells ?p)
           (added (dedup (map (\<lambda>e. crc ext0 (pixels e)) (cells ?p)))) = Inr uc" and
    us: "\<forall>c \<in> set uc. layeridx (cells ?p ! c) \<in> set (layerid ?p)" and
    an: "g_animdata g =
           Some (take (6 * length (layerid ?p) * frame_count (header ?p))
             (concat (map (\<lambda>i. layer_stream (gen_env_of ext0 ?p uc) (Some i)
                                 [0..<length (cells ?p)]) (layerid ?p)) @
              replicate (6 * length (layerid ?p) * frame_count (header ?p)) 0))"
    by auto
  from fl have f0: "layer_flags (g_flags g) (layers ?p ! 0) = Inr 3"
    and f2: "layer_flags (g_flags g) (layers ?p ! 2) = Inr 10"
    unfolding lp li by simp_all
  from us have us': "set (map (\<lambda>c. layeridx (cells ?p ! c)) uc) \<subseteq> {0, 2}"
    unfolding li by auto
  from an have an': "g_animdata g =
               Some (take 24
                 (concat (map (\<lambda>i. layer_stream (gen_env_of ext0 ?p uc) (Some i)
                                     [0..<length (cells ?p)]) [0, 2]) @ replicate 24 0))"
    unfolding li by (simp add: fc)
  show ?thesis
    by (intro exI [of _ g] exI [of _ ?p] exI [of _ uc] conjI)
       (fact p g n li lp f0 f2 uc us' an')+
qed

end
